theory Spec2Isabelle
  imports Complex_Main "HOL-Library.Word" "HOL-Library.Log_Nat" "HOL-Library.Signed_Division"
begin

unbundle bit_operations_syntax

section \<open>The clock module of the MSP430 simulator (simio\_clock.c)\<close>

text \<open>
  The development embeds the clock peripheral of MSPDebug's simulator: the oscillator
  frequency model \<open>calc_dcoclk\<close>, the multiplexers and dividers of
  \<open>update_clock_frequencies\<close>, reset, configuration parsing, the frequency formatter,
  the register interface, the calibration search and the per-instruction step.

  Conventions. \<open>int32_t\<close> and \<open>int\<close> are \<open>32 word\<close> read with \<open>sint\<close>,
  \<open>uint32_t\<close> and \<open>address_t\<close> are \<open>32 word\<close> read with \<open>unat\<close>, \<open>uint16_t\<close> is
  \<open>16 word\<close>, \<open>uint8_t\<close> is \<open>8 word\<close>. Signed overflow wraps around (two's complement),
  as the usual compilers do. A C string is the list of its characters before the
  terminating NUL; characters are read as unsigned bytes.
\<close>

type_synonym int32 = "32 word"
type_synonym uint32 = "32 word"
type_synonym uint16 = "16 word"
type_synonym uint8 = "8 word"
type_synonym address = "32 word"

subsection \<open>The type double: IEEE 754 binary64, round to nearest even\<close>

text \<open>
  A finite double is the rational number it denotes; the sign of zero is not tracked.
  Every arithmetic operation is the exact result rounded once to the nearest
  representable number, ties to even, as IEEE 754 prescribes for binary64 (53 bits of
  precision, exponents from -1022 to 1023, gradual underflow).
\<close>

datatype double = Finite rat | PlusInf | MinusInf | NaN

definition pow2 :: "int \<Rightarrow> rat" where
  "pow2 e = (if 0 \<le> e then 2 ^ nat e else 1 / 2 ^ nat (- e))"

text \<open>Rounding of a rational to the nearest integer, ties to the even one.\<close>

definition round_even :: "rat \<Rightarrow> int" where
  "round_even x =
     (let f = \<lfloor>x\<rfloor>; d = x - of_int f
      in if d < 1 / 2 then f else if 1 / 2 < d then f + 1 else if even f then f else f + 1)"

text \<open>\<open>ilog2 x\<close> is the exponent \<open>e\<close> with \<open>2^e \<le> |x| < 2^(e+1)\<close>, for \<open>x \<noteq> 0\<close>.\<close>

definition ilog2 :: "rat \<Rightarrow> int" where
  "ilog2 x =
     (case quotient_of \<bar>x\<bar> of (p, q) \<Rightarrow>
        let e = bitlen p - bitlen q in if pow2 e \<le> \<bar>x\<bar> then e else e - 1)"

definition rnd64 :: "rat \<Rightarrow> double" where
  "rnd64 x =
     (if x = 0 then Finite 0
      else let e = max (ilog2 x) (- 1022);
               ulp = pow2 (e - 52);
               r = of_int (round_even (x / ulp)) * ulp
           in if pow2 1024 \<le> \<bar>r\<bar> then (if 0 < x then PlusInf else MinusInf) else Finite r)"

text \<open>Conversion of an integer that fits 32 bits: exact.\<close>

definition d_of_int :: "int \<Rightarrow> double" where
  "d_of_int i = Finite (of_int i)"

fun d_neg :: "double \<Rightarrow> double" where
  "d_neg (Finite x) = Finite (- x)"
| "d_neg PlusInf = MinusInf"
| "d_neg MinusInf = PlusInf"
| "d_neg NaN = NaN"

text \<open>The sign of a non-NaN double as -1, 0 or 1.\<close>

fun d_sgn :: "double \<Rightarrow> int" where
  "d_sgn (Finite x) = (if x < 0 then - 1 else if x = 0 then 0 else 1)"
| "d_sgn PlusInf = 1"
| "d_sgn MinusInf = - 1"
| "d_sgn NaN = 0"

definition d_inf :: "int \<Rightarrow> double" where
  "d_inf s = (if s < 0 then MinusInf else PlusInf)"

fun d_mul :: "double \<Rightarrow> double \<Rightarrow> double" where
  "d_mul (Finite x) (Finite y) = rnd64 (x * y)"
| "d_mul NaN _ = NaN"
| "d_mul _ NaN = NaN"
| "d_mul a b = (if d_sgn a * d_sgn b = 0 then NaN else d_inf (d_sgn a * d_sgn b))"

fun d_add :: "double \<Rightarrow> double \<Rightarrow> double" where
  "d_add (Finite x) (Finite y) = rnd64 (x + y)"
| "d_add NaN _ = NaN"
| "d_add _ NaN = NaN"
| "d_add PlusInf MinusInf = NaN"
| "d_add MinusInf PlusInf = NaN"
| "d_add PlusInf _ = PlusInf"
| "d_add MinusInf _ = MinusInf"
| "d_add _ b = b"

fun d_div :: "double \<Rightarrow> double \<Rightarrow> double" where
  "d_div (Finite x) (Finite y) =
     (if y = 0 then (if x = 0 then NaN else d_inf (d_sgn (Finite x))) else rnd64 (x / y))"
| "d_div NaN _ = NaN"
| "d_div _ NaN = NaN"
| "d_div (Finite x) _ = Finite 0"
| "d_div a (Finite y) = d_inf (d_sgn a * (if y < 0 then - 1 else 1))"
| "d_div _ _ = NaN"

text \<open>The comparisons \<open><=\<close> and \<open>>=\<close> of C: false as soon as an operand is NaN.\<close>

fun d_le :: "double \<Rightarrow> double \<Rightarrow> bool" where
  "d_le (Finite x) (Finite y) = (x \<le> y)"
| "d_le NaN _ = False"
| "d_le _ NaN = False"
| "d_le MinusInf _ = True"
| "d_le _ PlusInf = True"
| "d_le _ _ = False"

definition d_ge :: "double \<Rightarrow> double \<Rightarrow> bool" where
  "d_ge a b = d_le b a"

text \<open>
  \<open>pow(x, y)\<close> of the C library, for the integer-valued exponents the module passes.
  The library is not part of the repository; the model is its contract in ISO C
  (Annex F): \<open>pow(x, 0)\<close> is 1 for every \<open>x\<close>, even a NaN, and otherwise the result is
  the correctly rounded power.
\<close>

definition rat_powi :: "rat \<Rightarrow> int \<Rightarrow> rat" where
  "rat_powi x n = (if 0 \<le> n then x ^ nat n else 1 / x ^ nat (- n))"

fun c_pow :: "double \<Rightarrow> int \<Rightarrow> double" where
  "c_pow x n =
     (if n = 0 then Finite 1
      else case x of
          NaN \<Rightarrow> NaN
        | Finite r \<Rightarrow> (if r = 0 \<and> n < 0 then PlusInf else rnd64 (rat_powi r n))
        | PlusInf \<Rightarrow> (if 0 < n then PlusInf else Finite 0)
        | MinusInf \<Rightarrow> (if n < 0 then Finite 0 else if even n then PlusInf else MinusInf))"

text \<open>
  The cast \<open>(int32_t)\<close> of a double truncates towards zero. A NaN or a value outside
  the range of \<open>int32_t\<close> is undefined behaviour in C; the model returns what the
  conversion instruction of x86-64 returns there, the most negative integer.
\<close>

definition trunc_rat :: "rat \<Rightarrow> int" where
  "trunc_rat x = (if 0 \<le> x then \<lfloor>x\<rfloor> else - \<lfloor>- x\<rfloor>)"

fun d_to_int32 :: "double \<Rightarrow> int32" where
  "d_to_int32 (Finite x) =
     (let t = trunc_rat x
      in if - (2 ^ 31) \<le> t \<and> t < 2 ^ 31 then word_of_int t else 0x80000000)"
| "d_to_int32 _ = 0x80000000"

subsection \<open>The device record\<close>

datatype clock_type = CLOCK_TYPE_BASIC | CLOCK_TYPE_BASIC_PLUS

record clock =
  clock_type :: clock_type
  lfxt1_hz :: int32
  xt2_hz :: int32
  vlo_hz :: int32
  dco4_3_hz :: int32
  dco7_3_hz :: int32
  srsel :: double
  sdco :: double
  dco_hz :: int32
  mclk_hz :: int32
  smclk_hz :: int32
  aclk_hz :: int32
  aclk_counter :: int32
  smclk_counter :: int32
  dcoctl :: uint8
  bcsctl1 :: uint8
  bcsctl2 :: uint8
  bcsctl3 :: uint8

text \<open>Register addresses.\<close>

definition DCOCTL :: address where "DCOCTL = 0x0056"
definition BCSCTL1 :: address where "BCSCTL1 = 0x0057"
definition BCSCTL2 :: address where "BCSCTL2 = 0x0058"
definition BCSCTL3 :: address where "BCSCTL3 = 0x0053"
definition CALDCO_16MHZ :: address where "CALDCO_16MHZ = 0x10F8"
definition CALBC1_16MHZ :: address where "CALBC1_16MHZ = 0x10F9"
definition CALDCO_12MHZ :: address where "CALDCO_12MHZ = 0x10FA"
definition CALBC1_12MHZ :: address where "CALBC1_12MHZ = 0x10FB"
definition CALDCO_8MHZ :: address where "CALDCO_8MHZ = 0x10FC"
definition CALBC1_8MHZ :: address where "CALBC1_8MHZ = 0x10FD"
definition CALDCO_1MHZ :: address where "CALDCO_1MHZ = 0x10FE"
definition CALBC1_1MHZ :: address where "CALBC1_1MHZ = 0x10FF"

subsection \<open>The oscillator frequency model\<close>

text \<open>
  \<open>tap_dcoclk\<close> is the value of the local \<open>dcoclk\<close> of \<open>calc_dcoclk\<close> before the
  modulation is applied: the frequency of the tap selected by the bits DCOx, in the
  range selected by RSELx.
\<close>

definition tap_dcoclk :: "clock \<Rightarrow> uint8 \<Rightarrow> uint8 \<Rightarrow> double" where
  "tap_dcoclk clk dcoctl_v bcsctl1_v =
     (let dco = uint (drop_bit 5 (dcoctl_v AND 0xe0));
          dcoclk0 = (if clock_type clk = CLOCK_TYPE_BASIC
                     then d_of_int (sint (dco4_3_hz clk))
                     else d_of_int (sint (dco7_3_hz clk)));
          d_rsel = (if clock_type clk = CLOCK_TYPE_BASIC
                    then uint (bcsctl1_v AND 0x7) - 4
                    else uint (bcsctl1_v AND 0xf) - 7);
          dcoclk1 = d_mul dcoclk0 (c_pow (srsel clk) d_rsel)
      in d_mul dcoclk1 (c_pow (sdco clk) (dco - 3)))"

definition calc_dcoclk :: "clock \<Rightarrow> uint8 \<Rightarrow> uint8 \<Rightarrow> int32" where
  "calc_dcoclk clk dcoctl_v bcsctl1_v =
     (let modv = uint (dcoctl_v AND 0x1f);
          dcoclk = tap_dcoclk clk dcoctl_v bcsctl1_v;
          next_dcoclk = d_mul dcoclk (sdco clk)
      in d_to_int32
           (d_div (d_mul (d_mul (d_of_int 32) dcoclk) next_dcoclk)
                  (d_add (d_mul (d_of_int modv) dcoclk)
                         (d_mul (d_of_int (32 - modv)) next_dcoclk))))"

text \<open>\<open>x >> n\<close> on \<open>int32_t\<close> is the arithmetic shift.\<close>

definition update_clock_frequencies :: "clock \<Rightarrow> clock" where
  "update_clock_frequencies clk =
     (let dcoclk = calc_dcoclk clk (dcoctl clk) (bcsctl1 clk);
          lfxtclk = (if clock_type clk = CLOCK_TYPE_BASIC_PLUS \<and> bcsctl3 clk AND 0x30 = 0x20
                     then vlo_hz clk else lfxt1_hz clk);
          xt2_or_lfxt = (if 0 < sint (xt2_hz clk) then xt2_hz clk else lfxtclk);
          mclk = (if bcsctl2 clk AND 0xc0 = 0x80 then xt2_or_lfxt
                  else if bcsctl2 clk AND 0xc0 = 0xc0 then lfxtclk
                  else dcoclk);
          smclk = (if bcsctl2 clk AND 0x08 \<noteq> 0 then xt2_or_lfxt else dcoclk)
      in clk\<lparr>dco_hz := dcoclk,
              mclk_hz := signed_drop_bit (unat (drop_bit 4 (bcsctl2 clk AND 0x30))) mclk,
              smclk_hz := signed_drop_bit (unat (drop_bit 1 (bcsctl2 clk AND 0x06))) smclk,
              aclk_hz := signed_drop_bit (unat (drop_bit 4 (bcsctl1 clk AND 0x30))) lfxtclk\<rparr>)"

definition clock_reset :: "clock \<Rightarrow> clock" where
  "clock_reset clk =
     (let c1 = clk\<lparr>aclk_counter := 0, smclk_counter := 0, dcoctl := 0x60, bcsctl2 := 0x00\<rparr>;
          c2 = (if clock_type c1 = CLOCK_TYPE_BASIC then c1\<lparr>bcsctl1 := 0x84\<rparr> else c1);
          c3 = (if clock_type c2 = CLOCK_TYPE_BASIC_PLUS
                then c2\<lparr>bcsctl1 := 0x87, bcsctl3 := 0x03\<rparr> else c2)
      in update_clock_frequencies c3)"

subsection \<open>Formatting a frequency\<close>

text \<open>
  \<open>to_frequency\<close> writes the digits least significant first, a point before the last
  group of up to three digits, reverses the buffer, strips the zeroes after the point
  and appends the unit. \<open>out\<close> is the part of the buffer written so far, so that \<open>p\<close>
  is \<open>buf + length out\<close>; \<open>len\<close> is the offset of the bound \<open>buf + len\<close> from \<open>buf\<close>.
  The body runs once before the test of the \<open>do\<close> loop, which stops when the number is
  exhausted or \<open>p\<close> has reached the bound.
\<close>

function to_frequency_loop :: "uint32 \<Rightarrow> nat \<Rightarrow> string \<Rightarrow> int \<Rightarrow> nat \<times> string" where
  "to_frequency_loop hz digit out len =
     (let out1 = (if digit \<noteq> 0 \<and> digit mod 3 = 0 \<and> hz < 1000 then out @ [CHR ''.''] else out);
          out2 = out1 @ [char_of (unat (hz mod 10) + 48)];
          hz1 = hz div 10;
          digit1 = digit + 1
      in if 0 < hz1 \<and> int (length out2) < len then to_frequency_loop hz1 digit1 out2 len
         else (digit1, out2))"
  by pat_completeness auto
termination
proof (relation "measure (\<lambda>(hz, digit, out, len). unat hz)")
  show "wf (measure (\<lambda>(hz, digit, out, len). unat hz))"
    by simp
next
  fix hz :: uint32 and digit :: nat and out :: string and len :: int
  fix out1 out2 :: string and hz1 :: uint32 and digit1 :: nat
  assume "hz1 = hz div 10" and "0 < hz1 \<and> int (length out2) < len"
  then have pos: "0 < unat hz div 10"
    by (simp add: unat_div word_less_nat_alt)
  then have "0 < unat hz"
    by (cases "unat hz = 0") simp_all
  then have "unat hz div 10 < unat hz"
    by (simp add: div_less_dividend)
  then have "unat (hz div 10) < unat hz"
    by (simp add: unat_div)
  with \<open>hz1 = hz div 10\<close>
  show "((hz1, digit1, out2, len), (hz, digit, out, len))
          \<in> measure (\<lambda>(hz, digit, out, len). unat hz)"
    by simp
qed

text \<open>Reading the buffer at an index: past the characters stands the terminating NUL.\<close>

definition buf_at :: "string \<Rightarrow> nat \<Rightarrow> char" where
  "buf_at s i = (if i < length s then s ! i else CHR 0x00)"

fun suppress_loop :: "string \<Rightarrow> nat \<Rightarrow> nat" where
  "suppress_loop s 0 = 0"
| "suppress_loop s (Suc e) = (if buf_at s e = CHR ''0'' then suppress_loop s e else e)"

text \<open>
  \<open>suppress_suffix_zeroes buf end\<close> returns the new end as an index into the buffer.
  When the loop stops on a point at \<open>buf[0]\<close>, \<open>end\<close> steps to \<open>buf - 1\<close> before the
  increment, and the result is \<open>buf + 0\<close>.
\<close>

definition suppress_suffix_zeroes :: "string \<Rightarrow> nat \<Rightarrow> nat" where
  "suppress_suffix_zeroes s e =
     (let e1 = int (suppress_loop s e);
          e2 = (if buf_at s (nat e1) = CHR ''.'' then e1 - 1 else e1)
      in nat (e2 + 1))"

text \<open>
  \<open>len\<close> is a \<open>size_t\<close>. Below 4 the subtraction wraps, and \<open>buf + len\<close> is the address
  \<open>4 - len\<close> bytes below the buffer: the offset of the bound from \<open>buf\<close> is \<open>len - 4\<close> in
  both cases, and no \<open>p\<close> is under a bound below the buffer.
\<close>

definition to_frequency :: "uint32 \<Rightarrow> nat \<Rightarrow> string" where
  "to_frequency hz len =
     (let len1 = int len - 4;
          (digit, out) = to_frequency_loop hz 0 [] len1;
          s = rev out;
          p = (if 3 < digit then suppress_suffix_zeroes s (length s) else length s);
          unit = (if 6 < digit then [CHR ''M''] else if 3 < digit then [CHR ''k''] else [])
      in take p s @ unit @ ''Hz'')"

subsection \<open>Diagnostics\<close>

text \<open>
  The messages the module prints, one constructor for each format string, with the
  values the format echoes.
\<close>

datatype diag =
    ClockTypeRequired
  | UnknownClockType string
  | ExpectedFrequency
  | IllegalFrequency string
  | ExpectedFloat
  | IllegalValue
  | MustBeGreaterThan1 double
  | MustBeLessThan1_8 double
  | UnknownParameter string
  | CrystalRange string string string string
  | XT2SDigitalNotSupported
  | LFXT1SDigitalNotSupported
  | LFXT1SReserved
  | LFXT1SFallback
  | LFXT1SVloUnset
  | LFXT1SDigitalMode

text \<open>\<open>CrystalRange name low high hz\<close>: "name must be low ~ high, but hz".\<close>

definition check_crystal :: "uint32 \<Rightarrow> uint32 \<Rightarrow> uint32 \<Rightarrow> string \<Rightarrow> diag list" where
  "check_crystal hz low high name =
     (if hz < low \<or> high < hz
      then [CrystalRange name (to_frequency low 20) (to_frequency high 20) (to_frequency hz 20)]
      else [])"

subsection \<open>Register writes\<close>

text \<open>\<open>bcsctl3_write\<close> only prints: it returns the messages and leaves the device alone.\<close>

definition bcsctl3_write :: "clock \<Rightarrow> uint8 \<Rightarrow> diag list" where
  "bcsctl3_write clk data =
     (let xt2 = (if data AND 0xc0 = 0x00 then check_crystal (xt2_hz clk) 400000 1000000 ''XT2''
                 else if data AND 0xc0 = 0x40 then check_crystal (xt2_hz clk) 1000000 4000000 ''XT2''
                 else if data AND 0xc0 = 0x80 then check_crystal (xt2_hz clk) 2000000 16000000 ''XT2''
                 else [XT2SDigitalNotSupported]);
          lfxt1 = (if bcsctl2 clk AND 0x40 \<noteq> 0
                   then (if data AND 0x30 = 0x00
                           then check_crystal (lfxt1_hz clk) 400000 1000000 ''LFXT1''
                         else if data AND 0x30 = 0x10
                           then check_crystal (lfxt1_hz clk) 1000000 3000000 ''LFXT1''
                         else if data AND 0x30 = 0x20
                           then check_crystal (lfxt1_hz clk) 3000000 16000000 ''LFXT1''
                         else [LFXT1SDigitalNotSupported])
                   else (if data AND 0x30 = 0x10 then [LFXT1SReserved, LFXT1SFallback]
                         else if data AND 0x30 = 0x20
                           then (if 0 < sint (vlo_hz clk) then [] else [LFXT1SVloUnset])
                         else if data AND 0x30 = 0x30 then [LFXT1SDigitalMode, LFXT1SFallback]
                         else []))
      in xt2 @ lfxt1)"

text \<open>
  \<open>clock_write_b\<close> returns the status (0: handled, 1: the address is not the
  device's), the device and the messages printed.
\<close>

definition clock_write_b :: "clock \<Rightarrow> address \<Rightarrow> uint8 \<Rightarrow> int \<times> clock \<times> diag list" where
  "clock_write_b clk addr data =
     (if addr = BCSCTL3 then
        (if clock_type clk = CLOCK_TYPE_BASIC_PLUS
         then (0, update_clock_frequencies clk, bcsctl3_write clk data)
         else (1, clk, []))
      else if addr = DCOCTL then (0, update_clock_frequencies (clk\<lparr>dcoctl := data\<rparr>), [])
      else if addr = BCSCTL1 then (0, update_clock_frequencies (clk\<lparr>bcsctl1 := data\<rparr>), [])
      else if addr = BCSCTL2 then (0, update_clock_frequencies (clk\<lparr>bcsctl2 := data\<rparr>), [])
      else (1, clk, []))"

subsection \<open>The calibration search\<close>

text \<open>\<open>abs\<close> on \<open>int\<close>; the most negative value is its own negation.\<close>

definition c_abs :: "int32 \<Rightarrow> int32" where
  "c_abs x = (if sint x < 0 then - x else x)"

text \<open>
  The loop of \<open>calc_calibrate_dco\<close>. Its state is \<open>cal\<close>, \<open>bit\<close>, \<open>min_delta\<close> and
  \<open>best_cal\<close>; \<open>seen\<close> records, in order, the candidate words the loop has evaluated
  (one for each iteration) and takes no part in the computation.
\<close>

function calibrate_loop ::
  "clock \<Rightarrow> int32 \<Rightarrow> uint16 \<Rightarrow> uint16 \<Rightarrow> int32 \<Rightarrow> uint16 \<Rightarrow> uint16 list \<Rightarrow> uint16 \<times> uint16 list"
where
  "calibrate_loop clk target cal bitv min_delta best_cal seen =
     (if bitv = 0 then (best_cal, seen)
      else
        let delta = calc_dcoclk clk (ucast (cal AND 0xff)) (ucast (drop_bit 8 cal)) - target;
            better = (sint (c_abs delta) < sint min_delta);
            min_delta1 = (if better then c_abs delta else min_delta);
            best_cal1 = (if better then cal else best_cal);
            cal1 = (if 0 < sint delta then cal AND NOT bitv else cal);
            bit1 = drop_bit 1 bitv;
            cal2 = cal1 OR bit1
        in calibrate_loop clk target cal2 bit1 min_delta1 best_cal1 (seen @ [cal]))"
  by pat_completeness auto
termination
proof (relation "measure (\<lambda>(clk, target, cal, bitv, min_delta, best_cal, seen). unat bitv)")
  show "wf (measure (\<lambda>(clk, target, cal, bitv, min_delta, best_cal, seen). unat bitv))"
    by simp
next
  fix clk :: clock and target :: int32 and cal bitv best_cal :: uint16
  fix min_delta :: int32 and seen :: "uint16 list"
  fix cal2 bit1 best_cal1 :: uint16 and min_delta1 :: int32
  assume "bitv \<noteq> 0" and "bit1 = drop_bit 1 bitv"
  from \<open>bitv \<noteq> 0\<close> have "0 < unat bitv"
    by (simp add: unat_gt_0)
  then have "unat bitv div 2 < unat bitv"
    by simp
  moreover have "unat (drop_bit 1 bitv) = unat bitv div 2"
    unfolding unat_drop_bit_eq by (simp add: drop_bit_eq_div)
  ultimately
  show "((clk, target, cal2, bit1, min_delta1, best_cal1, seen @ [cal]),
         (clk, target, cal, bitv, min_delta, best_cal, seen))
          \<in> measure (\<lambda>(clk, target, cal, bitv, min_delta, best_cal, seen). unat bitv)"
    using \<open>bit1 = drop_bit 1 bitv\<close> by simp
qed

definition calibrate_search :: "clock \<Rightarrow> int32 \<Rightarrow> uint16 \<times> uint16 list" where
  "calibrate_search clk target_dco =
     (let rsel_max = (if clock_type clk = CLOCK_TYPE_BASIC then 0x4 else 0x8) :: uint8;
          cal = push_bit 8 (ucast rsel_max) :: uint16
      in calibrate_loop clk target_dco cal cal 0x7fffffff cal [])"

definition calc_calibrate_dco :: "clock \<Rightarrow> address \<Rightarrow> int32 \<Rightarrow> uint8" where
  "calc_calibrate_dco clk addr target_dco =
     (let best_cal = fst (calibrate_search clk target_dco)
      in if addr mod 2 = 0 then ucast best_cal else ucast (drop_bit 8 best_cal))"

subsection \<open>Register reads\<close>

text \<open>
  \<open>clock_read_b\<close> returns \<open>Some v\<close> when it stores \<open>v\<close> into \<open>*data\<close> and returns 0,
  and \<open>None\<close> when it returns 1 and leaves \<open>*data\<close> alone. It never changes the device.
\<close>

definition clock_read_b :: "clock \<Rightarrow> address \<Rightarrow> uint8 option" where
  "clock_read_b clk addr =
     (if addr = DCOCTL then Some (dcoctl clk)
      else if addr = BCSCTL1 then Some (bcsctl1 clk)
      else if addr = BCSCTL2 then Some (bcsctl2 clk)
      else if clock_type clk = CLOCK_TYPE_BASIC_PLUS then
        (if addr = BCSCTL3 then Some (bcsctl3 clk)
         else if addr = CALDCO_16MHZ \<or> addr = CALBC1_16MHZ
           then Some (calc_calibrate_dco clk addr 16000000)
         else if addr = CALDCO_12MHZ \<or> addr = CALBC1_12MHZ
           then Some (calc_calibrate_dco clk addr 12000000)
         else if addr = CALDCO_8MHZ \<or> addr = CALBC1_8MHZ
           then Some (calc_calibrate_dco clk addr 8000000)
         else if addr = CALDCO_1MHZ \<or> addr = CALBC1_1MHZ
           then Some (calc_calibrate_dco clk addr 1000000)
         else None)
      else None)"

subsection \<open>The step\<close>

text \<open>
  The array \<open>clocks\<close> of the simulator, indexed by \<open>SIMIO_MCLK\<close>, \<open>SIMIO_SMCLK\<close> and
  \<open>SIMIO_ACLK\<close>.
\<close>

record tick_counts =
  ticks_mclk :: int32
  ticks_smclk :: int32
  ticks_aclk :: int32

text \<open>
  Division and remainder of C on \<open>int\<close> truncate towards zero. Division by zero, and
  the most negative value divided by -1, are faults: the program traps there.
\<close>

datatype fault = DivisionByZero | DivisionOverflow

definition div_fault :: "int32 \<Rightarrow> int32 \<Rightarrow> fault option" where
  "div_fault a b =
     (if b = 0 then Some DivisionByZero
      else if a = 0x80000000 \<and> b = - 1 then Some DivisionOverflow
      else None)"

definition c_div :: "int32 \<Rightarrow> int32 \<Rightarrow> int32" where
  "c_div a b = word_of_int (sint a sdiv sint b)"

definition c_rem :: "int32 \<Rightarrow> int32 \<Rightarrow> int32" where
  "c_rem a b = word_of_int (sint a smod sint b)"

definition clock_step :: "clock \<Rightarrow> uint16 \<Rightarrow> tick_counts \<Rightarrow> fault + clock \<times> tick_counts" where
  "clock_step clk status clocks =
     (let duration = ticks_mclk clocks * mclk_hz clk;
          a = aclk_counter clk + duration;
          s = smclk_counter clk + duration
      in case div_fault a (aclk_hz clk) of
           Some f \<Rightarrow> Inl f
         | None \<Rightarrow>
             (case div_fault s (smclk_hz clk) of
                Some f \<Rightarrow> Inl f
              | None \<Rightarrow>
                  Inr (clk\<lparr>aclk_counter := c_rem a (aclk_hz clk),
                           smclk_counter := c_rem s (smclk_hz clk)\<rparr>,
                       clocks\<lparr>ticks_aclk := c_div a (aclk_hz clk),
                              ticks_smclk := c_div s (smclk_hz clk)\<rparr>)))"

subsection \<open>Characters and the tokenizer (parse.c)\<close>

definition c_isspace :: "char \<Rightarrow> bool" where
  "c_isspace c = (let n = of_char c :: nat in n = 32 \<or> (9 \<le> n \<and> n \<le> 13))"

definition c_isdigit :: "char \<Rightarrow> bool" where
  "c_isdigit c = (let n = of_char c :: nat in 48 \<le> n \<and> n \<le> 57)"

definition c_isupper :: "char \<Rightarrow> bool" where
  "c_isupper c = (let n = of_char c :: nat in 65 \<le> n \<and> n \<le> 90)"

definition c_islower :: "char \<Rightarrow> bool" where
  "c_islower c = (let n = of_char c :: nat in 97 \<le> n \<and> n \<le> 122)"

definition c_tolower :: "char \<Rightarrow> char" where
  "c_tolower c = (if c_isupper c then char_of (of_char c + 32 :: nat) else c)"

text \<open>\<open>strcaseeq a b\<close> stands for \<open>strcasecmp(a, b) == 0\<close>.\<close>

definition strcaseeq :: "string \<Rightarrow> string \<Rightarrow> bool" where
  "strcaseeq a b = (map c_tolower a = map c_tolower b)"

text \<open>
  The scanning loop of \<open>get_arg\<close>: \<open>qstate\<close> and \<open>qval\<close> as in the source, \<open>out\<close> the
  characters written through \<open>rewrite\<close>. It returns them with the text from \<open>end\<close> on.
\<close>

fun get_arg_loop :: "string \<Rightarrow> int \<Rightarrow> int \<Rightarrow> string \<Rightarrow> string \<times> string" where
  "get_arg_loop [] qstate qval out = (out, [])"
| "get_arg_loop (c # cs) qstate qval out =
     (if qstate = 0 then
        (if c_isspace c then (out, c # cs)
         else if c = CHR 0x22 then get_arg_loop cs 1 qval out
         else get_arg_loop cs 0 qval (out @ [c]))
      else if qstate = 1 then
        (if c = CHR 0x22 then get_arg_loop cs 0 qval out
         else if c = CHR 0x5C then get_arg_loop cs 2 qval out
         else get_arg_loop cs 1 qval (out @ [c]))
      else if qstate = 2 then
        (if c = CHR 0x5C then get_arg_loop cs 1 qval (out @ [CHR 0x5C])
         else if c = CHR ''n'' then get_arg_loop cs 1 qval (out @ [CHR 0x0A])
         else if c = CHR ''r'' then get_arg_loop cs 1 qval (out @ [CHR 0x0D])
         else if c = CHR ''t'' then get_arg_loop cs 1 qval (out @ [CHR 0x09])
         else if (48 :: nat) \<le> of_char c \<and> (of_char c :: nat) \<le> 51
           then get_arg_loop cs 30 (of_char c - 48) out
         else if c = CHR ''x'' then get_arg_loop cs 40 0 out
         else get_arg_loop cs 1 qval (out @ [c]))
      else if qstate = 30 \<or> qstate = 31 then
        (let qval1 = (if (48 :: nat) \<le> of_char c \<and> (of_char c :: nat) \<le> 55
                      then push_bit 3 qval OR (of_char c - 48) else qval)
         in if qstate = 31 then get_arg_loop cs 1 qval1 (out @ [char_of qval1])
            else get_arg_loop cs (qstate + 1) qval1 out)
      else if qstate = 40 \<or> qstate = 41 then
        (let qval1 = (if c_isdigit c then push_bit 4 qval OR (of_char c - 48)
                      else if c_isupper c then push_bit 4 qval OR (of_char c - 65 + 10)
                      else if c_islower c then push_bit 4 qval OR (of_char c - 97 + 10)
                      else qval)
         in if qstate = 41 then get_arg_loop cs 1 qval1 (out @ [char_of qval1])
            else get_arg_loop cs (qstate + 1) qval1 out)
      else get_arg_loop cs qstate qval out)"

text \<open>
  \<open>get_arg text\<close> returns the argument (\<open>None\<close> for \<open>NULL\<close>) and the text the cursor
  \<open>*text\<close> points at afterwards. The argument is a C string: it ends at the first NUL
  an escape may have written.
\<close>

definition get_arg :: "string \<Rightarrow> string option \<times> string" where
  "get_arg text =
     (let start = dropWhile c_isspace text
      in if start = [] then (None, text)
         else let (out, rest) = get_arg_loop start 0 0 []
              in (Some (takeWhile (\<lambda>c. c \<noteq> CHR 0x00) out), dropWhile c_isspace rest))"

subsection \<open>Construction\<close>

text \<open>
  \<open>clock_create\<close> returns the message it prints when it returns \<open>NULL\<close>, and the new
  device otherwise (an allocation always succeeds in the model). \<open>memset\<close> clears
  every field first.
\<close>

definition zero_clock :: "clock_type \<Rightarrow> clock" where
  "zero_clock t =
     \<lparr>clock_type = t, lfxt1_hz = 0, xt2_hz = 0, vlo_hz = 0, dco4_3_hz = 0, dco7_3_hz = 0,
      srsel = Finite 0, sdco = Finite 0, dco_hz = 0, mclk_hz = 0, smclk_hz = 0, aclk_hz = 0,
      aclk_counter = 0, smclk_counter = 0, dcoctl = 0, bcsctl1 = 0, bcsctl2 = 0, bcsctl3 = 0\<rparr>"

definition clock_create :: "string \<Rightarrow> diag + clock" where
  "clock_create arg_text =
     (case fst (get_arg arg_text) of
        None \<Rightarrow> Inl ClockTypeRequired
      | Some type_text \<Rightarrow>
          if strcaseeq type_text ''basic''
            then Inr ((zero_clock CLOCK_TYPE_BASIC)
                        \<lparr>dco4_3_hz := 750000, srsel := rnd64 (165 / 100), sdco := rnd64 (112 / 100)\<rparr>)
          else if strcaseeq type_text ''basic+''
            then Inr ((zero_clock CLOCK_TYPE_BASIC_PLUS)
                        \<lparr>vlo_hz := 12000, dco7_3_hz := 1140000,
                         srsel := rnd64 (135 / 100), sdco := rnd64 (108 / 100)\<rparr>)
          else Inl (UnknownClockType type_text))"

subsection \<open>Configuration: frequencies\<close>

fun mul10 :: "nat \<Rightarrow> uint32 \<Rightarrow> uint32" where
  "mul10 0 val = val"
| "mul10 (Suc n) val = mul10 n (val * 10)"

fun div10 :: "nat \<Rightarrow> uint32 \<Rightarrow> uint32" where
  "div10 0 val = val"
| "div10 (Suc n) val = div10 n (val div 10)"

definition multiply_power_of_10 :: "uint32 \<Rightarrow> int \<Rightarrow> uint32" where
  "multiply_power_of_10 val pow =
     (if 0 < pow then mul10 (nat pow) val else div10 (nat (- pow)) val)"

text \<open>The \<open>for\<close> loop of \<open>config_frequency\<close>: it returns \<open>p\<close>, \<open>freq\<close> and \<open>frac\<close>.\<close>

fun frequency_scan :: "string \<Rightarrow> int32 \<Rightarrow> int \<Rightarrow> string \<times> int32 \<times> int" where
  "frequency_scan [] freq fracv = ([], freq, fracv)"
| "frequency_scan (c # cs) freq fracv =
     (if c_isdigit c
        then frequency_scan cs (freq * 10 + (word_of_nat (of_char c) - 48))
               (if 0 \<le> fracv then fracv + 1 else fracv)
      else if c = CHR ''.'' \<and> fracv < 0 then frequency_scan cs freq 0
      else (c # cs, freq, fracv))"

text \<open>The parameter \<open>hz\<close> or \<open>data\<close> of the two helpers names the field to store into.\<close>

datatype freq_field = Lfxt1Hz | Xt2Hz | Dco4_3Hz | VloHz | Dco7_3Hz

fun store_freq :: "freq_field \<Rightarrow> int32 \<Rightarrow> clock \<Rightarrow> clock" where
  "store_freq Lfxt1Hz v clk = clk\<lparr>lfxt1_hz := v\<rparr>"
| "store_freq Xt2Hz v clk = clk\<lparr>xt2_hz := v\<rparr>"
| "store_freq Dco4_3Hz v clk = clk\<lparr>dco4_3_hz := v\<rparr>"
| "store_freq VloHz v clk = clk\<lparr>vlo_hz := v\<rparr>"
| "store_freq Dco7_3Hz v clk = clk\<lparr>dco7_3_hz := v\<rparr>"

datatype ratio_field = Srsel | Sdco

fun store_ratio :: "ratio_field \<Rightarrow> double \<Rightarrow> clock \<Rightarrow> clock" where
  "store_ratio Srsel v clk = clk\<lparr>srsel := v\<rparr>"
| "store_ratio Sdco v clk = clk\<lparr>sdco := v\<rparr>"

text \<open>
  The result of a configuration call: the status returned (0 or -1), the device, the
  text the argument cursor points at, \<open>errno\<close>, and the messages printed.
\<close>

record config_result =
  ret :: int
  dev :: clock
  cursor :: string
  errno :: int
  printed :: "diag list"

definition config_frequency :: "clock \<Rightarrow> freq_field \<Rightarrow> string \<Rightarrow> int \<Rightarrow> config_result" where
  "config_frequency clk hz arg_text err =
     (case get_arg arg_text of
        (None, rest) \<Rightarrow>
          \<lparr>ret = - 1, dev = clk, cursor = rest, errno = err, printed = [ExpectedFrequency]\<rparr>
      | (Some freq_text, rest) \<Rightarrow>
          let (p, freq, frac0) = frequency_scan freq_text 0 (- 1);
              fracv = (if frac0 < 0 then 0 else frac0)
          in if p = [] \<or> strcaseeq p ''Hz'' \<or> strcaseeq p ''kHz'' \<or> strcaseeq p ''MHz''
             then
               let frac1 = (if p = [] \<or> strcaseeq p ''Hz'' then 0 - fracv
                            else if strcaseeq p ''kHz'' then 3 - fracv
                            else 6 - fracv);
                   freq1 = multiply_power_of_10 freq frac1
               in \<lparr>ret = 0, dev = update_clock_frequencies (store_freq hz freq1 clk),
                   cursor = rest, errno = err, printed = []\<rparr>
             else \<lparr>ret = - 1, dev = clk, cursor = rest, errno = err,
                   printed = [IllegalFrequency freq_text]\<rparr>)"

subsection \<open>Configuration: ratios\<close>

text \<open>
  \<open>strtod\<close> of the C library, which is not part of the repository, after its contract in
  ISO C: leading white space, an optional sign, then \<open>inf\<close> or \<open>infinity\<close>, or \<open>nan\<close>
  with an optional parenthesised tag, or a hexadecimal number \<open>0x h.h p\<plusminus>d\<close>, or a decimal
  number \<open>d.d e\<plusminus>d\<close>; the value is the number correctly rounded. It returns the value,
  the rest of the text (\<open>*endptr\<close>; the whole text when nothing converts) and \<open>errno\<close>,
  which becomes \<open>ERANGE\<close> when the value overflows or underflows and is left alone
  otherwise.
\<close>

definition ERANGE :: int where "ERANGE = 34"

definition digit_val :: "nat \<Rightarrow> char \<Rightarrow> nat option" where
  "digit_val base c =
     (let n = of_char c :: nat
      in if 48 \<le> n \<and> n \<le> 57 then Some (n - 48)
         else if base = 16 \<and> 97 \<le> n \<and> n \<le> 102 then Some (n - 87)
         else if base = 16 \<and> 65 \<le> n \<and> n \<le> 70 then Some (n - 55)
         else None)"

fun scan_digits :: "nat \<Rightarrow> string \<Rightarrow> int \<Rightarrow> nat \<Rightarrow> int \<times> nat \<times> string" where
  "scan_digits base [] acc n = (acc, n, [])"
| "scan_digits base (c # cs) acc n =
     (case digit_val base c of
        Some d \<Rightarrow> scan_digits base cs (acc * int base + int d) (n + 1)
      | None \<Rightarrow> (acc, n, c # cs))"

text \<open>
  Digits with an optional point: the digits read as one integer, their number, the
  number of them after the point, and the rest.
\<close>

definition scan_mantissa :: "nat \<Rightarrow> string \<Rightarrow> int \<times> nat \<times> nat \<times> string" where
  "scan_mantissa base s =
     (let (m1, n1, r1) = scan_digits base s 0 0
      in case r1 of
           c # r \<Rightarrow>
             if c = CHR ''.''
             then (let (m2, n2, r2) = scan_digits base r m1 0 in (m2, n1 + n2, n2, r2))
             else (m1, n1, 0, r1)
         | [] \<Rightarrow> (m1, n1, 0, r1))"

text \<open>An optional exponent part introduced by the letter \<open>mk\<close> (\<open>e\<close> or \<open>p\<close>).\<close>

definition scan_exponent :: "char \<Rightarrow> string \<Rightarrow> int \<times> string" where
  "scan_exponent mk s =
     (case s of
        [] \<Rightarrow> (0, s)
      | c # r \<Rightarrow>
          if c_tolower c = mk
          then (let (sg, r1) = (case r of
                                  [] \<Rightarrow> (1, r)
                                | d # t \<Rightarrow> if d = CHR ''-'' then (- 1, t)
                                           else if d = CHR ''+'' then (1, t) else (1, r));
                    (e, n, r2) = scan_digits 10 r1 0 0
                in if n = 0 then (0, s) else (sg * e, r2))
          else (0, s))"

definition c_isnchar :: "char \<Rightarrow> bool" where
  "c_isnchar c = (c_isdigit c \<or> c_isupper c \<or> c_islower c \<or> c = CHR ''_'')"

definition nan_tail :: "string \<Rightarrow> string" where
  "nan_tail s =
     (case s of
        [] \<Rightarrow> s
      | c # r \<Rightarrow>
          if c = CHR ''(''
          then (case dropWhile c_isnchar r of
                  [] \<Rightarrow> s
                | d # t \<Rightarrow> if d = CHR '')'' then t else s)
          else s)"

text \<open>
  The rounded value of a number read, with the \<open>errno\<close> it leaves: \<open>ERANGE\<close> when the
  value overflows, or when it lies below the normal range and the rounding changes it
  (a subnormal number read exactly is no range error).
\<close>

definition strtod_value :: "bool \<Rightarrow> rat \<Rightarrow> int \<Rightarrow> double \<times> int" where
  "strtod_value neg x err =
     (let y = (if neg then - x else x);
          v = rnd64 y
      in (v, if v = PlusInf \<or> v = MinusInf \<or> (\<bar>x\<bar> < pow2 (- 1022) \<and> v \<noteq> Finite y)
             then ERANGE else err))"

definition strtod :: "string \<Rightarrow> int \<Rightarrow> double \<times> string \<times> int" where
  "strtod nptr err =
     (let s0 = dropWhile c_isspace nptr;
          (neg, s1) = (case s0 of
                         [] \<Rightarrow> (False, s0)
                       | c # t \<Rightarrow> if c = CHR ''-'' then (True, t)
                                  else if c = CHR ''+'' then (False, t) else (False, s0));
          low = map c_tolower s1;
          (hm, hn, hk, hr) = scan_mantissa 16 (drop 2 s1);
          (dm, dn, dk, dr) = scan_mantissa 10 s1
      in if take 8 low = ''infinity'' then (if neg then MinusInf else PlusInf, drop 8 s1, err)
         else if take 3 low = ''inf'' then (if neg then MinusInf else PlusInf, drop 3 s1, err)
         else if take 3 low = ''nan'' then (NaN, nan_tail (drop 3 s1), err)
         else if take 2 low = ''0x'' \<and> 0 < hn then
           (let (e, r) = scan_exponent CHR ''p'' hr;
                (v, err1) = strtod_value neg (of_int hm * pow2 (e - 4 * int hk)) err
            in (v, r, err1))
         else if 0 < dn then
           (let (e, r) = scan_exponent CHR ''e'' dr;
                (v, err1) = strtod_value neg (of_int dm * rat_powi 10 (e - int dk)) err
            in (v, r, err1))
         else (Finite 0, nptr, err))"

text \<open>The constants \<open>1.0d\<close> and \<open>1.8d\<close> are the doubles nearest to the decimals.\<close>

definition config_ratio :: "clock \<Rightarrow> ratio_field \<Rightarrow> string \<Rightarrow> int \<Rightarrow> config_result" where
  "config_ratio clk data arg_text err =
     (case get_arg arg_text of
        (None, rest) \<Rightarrow>
          \<lparr>ret = - 1, dev = clk, cursor = rest, errno = err, printed = [ExpectedFloat]\<rparr>
      | (Some double_text, rest) \<Rightarrow>
          let (val, nxt, err1) = strtod double_text err
          in if nxt \<noteq> [] \<or> err1 = ERANGE
               then \<lparr>ret = - 1, dev = clk, cursor = rest, errno = err1, printed = [IllegalValue]\<rparr>
             else if d_le val (rnd64 1)
               then \<lparr>ret = - 1, dev = clk, cursor = rest, errno = err1,
                     printed = [MustBeGreaterThan1 val]\<rparr>
             else if d_ge val (rnd64 (18 / 10))
               then \<lparr>ret = - 1, dev = clk, cursor = rest, errno = err1,
                     printed = [MustBeLessThan1_8 val]\<rparr>
             else \<lparr>ret = 0, dev = update_clock_frequencies (store_ratio data val clk),
                   cursor = rest, errno = err1, printed = []\<rparr>)"

subsection \<open>Configuration: the dispatch on the parameter name\<close>

definition clock_config :: "clock \<Rightarrow> string \<Rightarrow> string \<Rightarrow> int \<Rightarrow> config_result" where
  "clock_config clk param arg_text err =
     (if strcaseeq param ''lfxt1'' then config_frequency clk Lfxt1Hz arg_text err
      else if strcaseeq param ''xt2'' then config_frequency clk Xt2Hz arg_text err
      else if clock_type clk = CLOCK_TYPE_BASIC \<and> strcaseeq param ''dco4_3''
        then config_frequency clk Dco4_3Hz arg_text err
      else if clock_type clk = CLOCK_TYPE_BASIC_PLUS \<and> strcaseeq param ''vlo''
        then config_frequency clk VloHz arg_text err
      else if clock_type clk = CLOCK_TYPE_BASIC_PLUS \<and> strcaseeq param ''dco7_3''
        then config_frequency clk Dco7_3Hz arg_text err
      else if strcaseeq param ''srsel'' then config_ratio clk Srsel arg_text err
      else if strcaseeq param ''sdco'' then config_ratio clk Sdco arg_text err
      else \<lparr>ret = - 1, dev = clk, cursor = arg_text, errno = err,
            printed = [UnknownParameter param]\<rparr>)"

subsection \<open>Devices and addresses the statements speak of\<close>

text \<open>
  \<open>created t\<close> is the device the simulator holds after \<open>create\<close> with the type token
  \<open>t\<close> followed by \<open>reset\<close>.
\<close>

definition created :: "string \<Rightarrow> clock" where
  "created type_text = clock_reset (projr (clock_create type_text))"

text \<open>
  The mapped set of a family: the three registers, and for Basic+ the third control
  register and the eight calibration constants.
\<close>

definition mapped_addresses :: "clock_type \<Rightarrow> address set" where
  "mapped_addresses t =
     (if t = CLOCK_TYPE_BASIC then {DCOCTL, BCSCTL1, BCSCTL2}
      else {DCOCTL, BCSCTL1, BCSCTL2, BCSCTL3,
            CALDCO_16MHZ, CALBC1_16MHZ, CALDCO_12MHZ, CALBC1_12MHZ,
            CALDCO_8MHZ, CALBC1_8MHZ, CALDCO_1MHZ, CALBC1_1MHZ})"

text \<open>
  \<open>step_mclk\<close> of the module's test file: a step with the given number of main-clock
  ticks and the two other slots cleared.
\<close>

definition step_mclk :: "clock \<Rightarrow> int32 \<Rightarrow> fault + clock \<times> tick_counts" where
  "step_mclk clk mclk =
     clock_step clk 0 \<lparr>ticks_mclk = mclk, ticks_smclk = 0, ticks_aclk = 0\<rparr>"

text \<open>
  \<open>crystal_device f sel\<close>: a Basic device configured with a crystal of frequency \<open>f\<close>
  on LFXT1, reset, with \<open>sel\<close> then written to BCSCTL2.
\<close>

definition crystal_device :: "string \<Rightarrow> uint8 \<Rightarrow> clock" where
  "crystal_device freq_text sel =
     fst (snd (clock_write_b
                 (clock_reset (dev (clock_config (created ''basic'') ''lfxt1'' freq_text 0)))
                 BCSCTL2 sel))"

text \<open>
  The absolute error of a candidate word as the loop of \<open>calc_calibrate_dco\<close> computes
  it: \<open>abs(delta)\<close> in \<open>int32_t\<close>, read as an integer.
\<close>

definition abs_delta :: "clock \<Rightarrow> int32 \<Rightarrow> uint16 \<Rightarrow> int" where
  "abs_delta clk target cal =
     sint (c_abs (calc_dcoclk clk (ucast (cal AND 0xff)) (ucast (drop_bit 8 cal)) - target))"

subsection \<open>The formatter as the specification words it\<close>

text \<open>
  \<open>format_hz\<close> follows the words of the specification, not the code: the decimal
  digits of the value, most significant first; for more than three digits a point after
  the highest-order group of one to three digits (the digits grouped in threes from the
  right), then the zero digits at the end and a point left bare at the end stripped; and
  the unit: none up to three digits, \<open>k\<close> for four to six, \<open>M\<close> for more than six.
\<close>

fun decimal :: "nat \<Rightarrow> string" where
  "decimal n =
     (if n < 10 then [char_of (n + 48)] else decimal (n div 10) @ [char_of (n mod 10 + 48)])"

definition strip_zeroes :: "string \<Rightarrow> string" where
  "strip_zeroes s =
     (let t = rev (dropWhile (\<lambda>c. c = CHR ''0'') (rev s))
      in if t \<noteq> [] \<and> last t = CHR ''.'' then butlast t else t)"

definition format_hz :: "nat \<Rightarrow> string" where
  "format_hz n =
     (let ds = decimal n;
          d = length ds;
          g = (d - 1) mod 3 + 1
      in if d \<le> 3 then ds @ ''Hz''
         else strip_zeroes (take g ds @ ''.'' @ drop g ds)
                @ (if d \<le> 6 then ''k'' else ''M'') @ ''Hz'')"

section \<open>Properties\<close>

lemma update_keeps [simp]:
  "clock_type (update_clock_frequencies c) = clock_type c"
  "lfxt1_hz (update_clock_frequencies c) = lfxt1_hz c"
  "xt2_hz (update_clock_frequencies c) = xt2_hz c"
  "vlo_hz (update_clock_frequencies c) = vlo_hz c"
  "dco4_3_hz (update_clock_frequencies c) = dco4_3_hz c"
  "dco7_3_hz (update_clock_frequencies c) = dco7_3_hz c"
  "srsel (update_clock_frequencies c) = srsel c"
  "sdco (update_clock_frequencies c) = sdco c"
  "aclk_counter (update_clock_frequencies c) = aclk_counter c"
  "smclk_counter (update_clock_frequencies c) = smclk_counter c"
  "dcoctl (update_clock_frequencies c) = dcoctl c"
  "bcsctl1 (update_clock_frequencies c) = bcsctl1 c"
  "bcsctl2 (update_clock_frequencies c) = bcsctl2 c"
  "bcsctl3 (update_clock_frequencies c) = bcsctl3 c"
  by (simp_all add: update_clock_frequencies_def Let_def)

lemma get_arg_basic: "get_arg ''basic'' = (Some ''basic'', [])"
  by (simp add: get_arg_def c_isspace_def)

lemma get_arg_basic_plus: "get_arg ''basic+'' = (Some ''basic+'', [])"
  by (simp add: get_arg_def c_isspace_def)

lemma create_basic:
  "clock_create ''basic'' = Inr ((zero_clock CLOCK_TYPE_BASIC)
     \<lparr>dco4_3_hz := 750000, srsel := rnd64 (165 / 100), sdco := rnd64 (112 / 100)\<rparr>)"
  by (simp add: clock_create_def get_arg_basic strcaseeq_def c_tolower_def c_isupper_def)

lemma create_basic_plus:
  "clock_create ''basic+'' = Inr ((zero_clock CLOCK_TYPE_BASIC_PLUS)
     \<lparr>vlo_hz := 12000, dco7_3_hz := 1140000,
      srsel := rnd64 (135 / 100), sdco := rnd64 (108 / 100)\<rparr>)"
  by (simp add: clock_create_def get_arg_basic_plus strcaseeq_def c_tolower_def c_isupper_def)

lemma created_basic_type [simp]: "clock_type (created ''basic'') = CLOCK_TYPE_BASIC"
  by (simp add: created_def create_basic clock_reset_def zero_clock_def Let_def)

lemma created_plus_type [simp]: "clock_type (created ''basic+'') = CLOCK_TYPE_BASIC_PLUS"
  by (simp add: created_def create_basic_plus clock_reset_def zero_clock_def Let_def)

text \<open>
  Claim C6. After \<open>reset\<close> the register bytes are the power-on defaults of the family:
  DCOCTL is 0x60 and BCSCTL2 is 0x00 for both; BCSCTL1 is 0x84 for Basic; for Basic+
  BCSCTL1 is 0x87 and BCSCTL3 is 0x03.
\<close>

theorem reset_defaults:
  "dcoctl (clock_reset clk) = 0x60 \<and> bcsctl2 (clock_reset clk) = 0x00 \<and>
   (clock_type clk = CLOCK_TYPE_BASIC \<longrightarrow> bcsctl1 (clock_reset clk) = 0x84) \<and>
   (clock_type clk = CLOCK_TYPE_BASIC_PLUS \<longrightarrow>
      bcsctl1 (clock_reset clk) = 0x87 \<and> bcsctl3 (clock_reset clk) = 0x03)"
  by (simp add: clock_reset_def Let_def)

theorem reset_defaults_witness:
  "clock_type (projr (clock_create ''basic'')) = CLOCK_TYPE_BASIC \<and>
   dcoctl (created ''basic'') = 0x60 \<and> bcsctl2 (created ''basic'') = 0x00 \<and>
   bcsctl1 (created ''basic'') = 0x84 \<and>
   clock_type (projr (clock_create ''basic+'')) = CLOCK_TYPE_BASIC_PLUS \<and>
   dcoctl (created ''basic+'') = 0x60 \<and> bcsctl2 (created ''basic+'') = 0x00 \<and>
   bcsctl1 (created ''basic+'') = 0x87 \<and> bcsctl3 (created ''basic+'') = 0x03"
  using reset_defaults [of "projr (clock_create ''basic'')"]
        reset_defaults [of "projr (clock_create ''basic+'')"]
  by (simp add: created_def create_basic create_basic_plus zero_clock_def)


declare decimal.simps [simp del]
declare to_frequency_loop.simps [simp del]

lemma decimal_small: "n < 10 \<Longrightarrow> decimal n = [char_of (n + 48)]"
  by (subst decimal.simps) simp

lemma decimal_step: "10 \<le> n \<Longrightarrow> decimal n = decimal (n div 10) @ [char_of (n mod 10 + 48)]"
  by (subst decimal.simps) simp

lemma decimal_nonempty: "decimal n \<noteq> []"
  by (subst decimal.simps) simp

lemma decimal_length_le: "0 < k \<Longrightarrow> n < 10 ^ k \<Longrightarrow> length (decimal n) \<le> k"
proof (induction k arbitrary: n)
  case 0
  then show ?case by simp
next
  case (Suc k)
  show ?case
  proof (cases "n < 10")
    case True
    then show ?thesis by (simp add: decimal_small)
  next
    case False
    then have k: "0 < k"
      using Suc.prems by (cases k) simp_all
    have "n div 10 < 10 ^ k"
      using Suc.prems by (simp add: less_mult_imp_div_less mult.commute)
    then have "length (decimal (n div 10)) \<le> k"
      using k by (rule Suc.IH [rotated])
    then show ?thesis
      using False by (simp add: decimal_step)
  qed
qed

lemma decimal_thousand:
  assumes "1000 \<le> n"
  shows "decimal n = decimal (n div 1000) @
           [char_of (n div 100 mod 10 + 48), char_of (n div 10 mod 10 + 48), char_of (n mod 10 + 48)]"
proof -
  have a: "10 \<le> n" "10 \<le> n div 10" "10 \<le> n div 100"
    using assms by simp_all
  have d: "n div 10 div 10 = n div 100" "n div 100 div 10 = n div 1000"
    by (simp_all add: div_mult2_eq [symmetric])
  have s1: "decimal n = decimal (n div 10) @ [char_of (n mod 10 + 48)]"
    by (rule decimal_step [OF a(1)])
  have s2: "decimal (n div 10) = decimal (n div 100) @ [char_of (n div 10 mod 10 + 48)]"
    using decimal_step [OF a(2)] by (simp only: d)
  have s3: "decimal (n div 100) = decimal (n div 1000) @ [char_of (n div 100 mod 10 + 48)]"
    using decimal_step [OF a(3)] by (simp only: d)
  show ?thesis
    by (simp only: s1 s2 s3 append_assoc append_Cons append_Nil)
qed

lemma loop_step:
  "to_frequency_loop hz k out len =
     (if 0 < unat hz div 10 \<and>
         int (length ((if k \<noteq> 0 \<and> k mod 3 = 0 \<and> unat hz < 1000 then out @ [CHR ''.''] else out)
                      @ [char_of (unat hz mod 10 + 48)])) < len
      then to_frequency_loop (hz div 10) (Suc k)
             ((if k \<noteq> 0 \<and> k mod 3 = 0 \<and> unat hz < 1000 then out @ [CHR ''.''] else out)
                @ [char_of (unat hz mod 10 + 48)]) len
      else (Suc k,
            (if k \<noteq> 0 \<and> k mod 3 = 0 \<and> unat hz < 1000 then out @ [CHR ''.''] else out)
              @ [char_of (unat hz mod 10 + 48)]))"
  by (subst to_frequency_loop.simps)
    (simp add: Let_def word_less_nat_alt unat_div unat_mod)

text \<open>The last group: fewer than 1000 left, at a digit count that is a multiple of 3.\<close>

lemma loop_last_group:
  assumes n: "unat hz < 1000" and k: "k mod 3 = 0"
    and room: "int (length out) + int (length (decimal (unat hz))) + 1 \<le> len"
  shows "to_frequency_loop hz k out len =
           (k + length (decimal (unat hz)),
            out @ (if k \<noteq> 0 then [CHR ''.''] else []) @ rev (decimal (unat hz)))"
proof -
  let ?n = "unat hz"
  let ?o = "out @ (if k \<noteq> 0 then [CHR ''.''] else [])"
  have k1: "Suc k mod 3 \<noteq> 0" "Suc (Suc k) mod 3 \<noteq> 0"
    using k by presburger+
  consider "?n < 10" | "10 \<le> ?n" "?n < 100" | "100 \<le> ?n"
    by linarith
  then show ?thesis
  proof cases
    case 1
    then have "to_frequency_loop hz k out len = (Suc k, ?o @ [char_of (?n mod 10 + 48)])"
      using n k by (subst loop_step) simp
    then show ?thesis
      using 1 by (simp add: decimal_small)
  next
    case 2
    have d: "decimal ?n = [char_of (?n div 10 + 48), char_of (?n mod 10 + 48)]"
      using 2 by (simp add: decimal_step decimal_small)
    have u: "unat (hz div 10) = ?n div 10"
      by (simp add: unat_div)
    have a: "0 < ?n div 10" "?n div 10 < 10" "?n div 10 div 10 = 0"
      using 2 by simp_all
    have "to_frequency_loop hz k out len =
            to_frequency_loop (hz div 10) (Suc k) (?o @ [char_of (?n mod 10 + 48)]) len"
      using a n k room by (subst loop_step) (simp add: d)
    also have "\<dots> = (Suc (Suc k), ?o @ [char_of (?n mod 10 + 48), char_of (?n div 10 + 48)])"
      using a k1 by (subst loop_step) (simp add: u)
    finally show ?thesis
      by (simp add: d)
  next
    case 3
    have a: "10 \<le> ?n" "10 \<le> ?n div 10" "?n div 10 < 100" "?n div 10 div 10 < 10"
      "0 < ?n div 10" "0 < ?n div 10 div 10" "?n div 10 div 10 div 10 = 0"
      using 3 n by simp_all
    have d: "decimal ?n =
        [char_of (?n div 10 div 10 + 48), char_of (?n div 10 mod 10 + 48), char_of (?n mod 10 + 48)]"
      using a by (simp add: decimal_step decimal_small)
    have u: "unat (hz div 10) = ?n div 10" "unat (hz div 10 div 10) = ?n div 10 div 10"
      by (simp_all add: unat_div)
    have "to_frequency_loop hz k out len =
            to_frequency_loop (hz div 10) (Suc k) (?o @ [char_of (?n mod 10 + 48)]) len"
      using a n k room by (subst loop_step) (simp add: d)
    also have "\<dots> = to_frequency_loop (hz div 10 div 10) (Suc (Suc k))
                          (?o @ [char_of (?n mod 10 + 48), char_of (?n div 10 mod 10 + 48)]) len"
      using a k1 room by (subst loop_step) (simp add: u d)
    also have "\<dots> = (Suc (Suc (Suc k)),
                         ?o @ [char_of (?n mod 10 + 48), char_of (?n div 10 mod 10 + 48),
                               char_of (?n div 10 div 10 + 48)])"
      using a k1 by (subst loop_step) (simp add: u)
    finally show ?thesis
      by (simp add: d)
  qed
qed

text \<open>A group of three digits with 1000 or more left: no point is written.\<close>

lemma loop_group:
  assumes n: "1000 \<le> unat hz" and k: "k mod 3 = 0"
    and room: "int (length out) + 3 < len"
  shows "to_frequency_loop hz k out len =
           to_frequency_loop (hz div 10 div 10 div 10) (k + 3)
             (out @ [char_of (unat hz mod 10 + 48), char_of (unat hz div 10 mod 10 + 48),
                     char_of (unat hz div 100 mod 10 + 48)]) len"
proof -
  let ?n = "unat hz"
  have k1: "Suc k mod 3 \<noteq> 0" "Suc (Suc k) mod 3 \<noteq> 0"
    using k by presburger+
  have a: "0 < ?n div 10" "0 < ?n div 10 div 10" "0 < ?n div 10 div 10 div 10" "\<not> ?n < 1000"
    using n by simp_all
  have u: "unat (hz div 10) = ?n div 10" "unat (hz div 10 div 10) = ?n div 10 div 10"
    by (simp_all add: unat_div)
  have d: "?n div 10 div 10 = ?n div 100"
    by (simp add: div_mult2_eq [symmetric])
  have e: "k + 3 = Suc (Suc (Suc k))"
    by simp
  have "to_frequency_loop hz k out len =
          to_frequency_loop (hz div 10) (Suc k) (out @ [char_of (?n mod 10 + 48)]) len"
    using a room by (subst loop_step) simp
  also have "\<dots> = to_frequency_loop (hz div 10 div 10) (Suc (Suc k))
                        (out @ [char_of (?n mod 10 + 48), char_of (?n div 10 mod 10 + 48)]) len"
    using a k1 room by (subst loop_step) (simp add: u)
  also have "\<dots> = to_frequency_loop (hz div 10 div 10 div 10) (Suc (Suc (Suc k)))
                        (out @ [char_of (?n mod 10 + 48), char_of (?n div 10 mod 10 + 48),
                                char_of (?n div 100 mod 10 + 48)]) len"
    using a k1 room by (subst loop_step) (simp add: u d)
  finally show ?thesis
    by (simp only: e)
qed


text \<open>
  The loop from a digit count that is a multiple of 3: the digits split into the
  highest-order group \<open>hi\<close> of one to three digits and the groups of three \<open>lo\<close> below it,
  with the point between them when there is a group below or digits were written before.
\<close>

lemma loop_groups:
  assumes "k mod 3 = 0"
    and "int (length out) + int (length (decimal (unat hz))) + 1 \<le> len"
  shows "\<exists>hi lo.
           to_frequency_loop hz k out len =
             (k + length hi + length lo,
              out @ rev lo @ (if k \<noteq> 0 \<or> lo \<noteq> [] then [CHR ''.''] else []) @ rev hi) \<and>
           decimal (unat hz) = hi @ lo \<and> 1 \<le> length hi \<and> length hi \<le> 3 \<and>
           length lo mod 3 = 0 \<and> (lo = [] \<longleftrightarrow> unat hz < 1000)"
  using assms
proof (induction "unat hz" arbitrary: hz k out rule: less_induct)
  case less
  let ?n = "unat hz"
  show ?case
  proof (cases "?n < 1000")
    case True
    have l: "length (decimal ?n) \<le> 3"
      using decimal_length_le [of 3 ?n] True by simp
    have p: "1 \<le> length (decimal ?n)"
      using decimal_nonempty [of ?n] by (cases "decimal ?n") simp_all
    have "to_frequency_loop hz k out len =
            (k + length (decimal ?n) + length ([] :: string),
             out @ rev [] @ (if k \<noteq> 0 \<or> ([] :: string) \<noteq> [] then [CHR ''.''] else [])
               @ rev (decimal ?n))"
      using loop_last_group [OF True less.prems] by simp
    with l p True show ?thesis
      by (intro exI [of _ "decimal ?n"] exI [of _ "[]"]) simp
  next
    case False
    then have n: "1000 \<le> ?n"
      by simp
    let ?c = "[char_of (?n div 100 mod 10 + 48), char_of (?n div 10 mod 10 + 48),
               char_of (?n mod 10 + 48)]"
    let ?r = "[char_of (?n mod 10 + 48), char_of (?n div 10 mod 10 + 48),
               char_of (?n div 100 mod 10 + 48)]"
    let ?h = "hz div 10 div 10 div 10"
    have u: "unat ?h = ?n div 1000"
      by (simp add: unat_div div_mult2_eq [symmetric])
    have d: "decimal ?n = decimal (?n div 1000) @ ?c"
      by (rule decimal_thousand [OF n])
    then have dl: "length (decimal ?n) = length (decimal (?n div 1000)) + 3"
      by simp
    have room: "int (length out) + 3 < len"
      using less.prems(2) dl by simp
    have s: "to_frequency_loop hz k out len = to_frequency_loop ?h (k + 3) (out @ ?r) len"
      by (rule loop_group [OF n less.prems(1) room])
    have lt: "unat ?h < ?n"
      using n by (simp add: u)
    have k3: "(k + 3) mod 3 = 0"
      using less.prems(1) by simp
    have room': "int (length (out @ ?r)) + int (length (decimal (unat ?h))) + 1 \<le> len"
      using less.prems(2) dl by (simp add: u)
    from less.hyps [OF lt k3 room'] obtain hi lo where
      x: "to_frequency_loop ?h (k + 3) (out @ ?r) len =
            (k + 3 + length hi + length lo,
             (out @ ?r) @ rev lo @ (if k + 3 \<noteq> 0 \<or> lo \<noteq> [] then [CHR ''.''] else []) @ rev hi) \<and>
          decimal (unat ?h) = hi @ lo \<and> 1 \<le> length hi \<and> length hi \<le> 3 \<and>
          length lo mod 3 = 0 \<and> (lo = [] \<longleftrightarrow> unat ?h < 1000)"
      by (elim exE) (rule that, assumption)
    then have e: "decimal (unat ?h) = hi @ lo" "1 \<le> length hi" "length hi \<le> 3"
        "length lo mod 3 = 0"
      by simp_all
    from x have "to_frequency_loop ?h (k + 3) (out @ ?r) len =
            (k + 3 + length hi + length lo, (out @ ?r) @ rev lo @ [CHR ''.''] @ rev hi)"
      by simp
    with s have "to_frequency_loop hz k out len =
            (k + 3 + length hi + length lo, (out @ ?r) @ rev lo @ [CHR ''.''] @ rev hi)"
      by (rule trans)
    also have "\<dots> = (k + length hi + length (lo @ ?c),
             out @ rev (lo @ ?c) @ (if k \<noteq> 0 \<or> lo @ ?c \<noteq> [] then [CHR ''.''] else [])
               @ rev hi)"
      by simp
    finally have "to_frequency_loop hz k out len =
            (k + length hi + length (lo @ ?c),
             out @ rev (lo @ ?c) @ (if k \<noteq> 0 \<or> lo @ ?c \<noteq> [] then [CHR ''.''] else [])
               @ rev hi)" .
    moreover have "decimal ?n = hi @ lo @ ?c"
      using d e(1) by (simp add: u)
    moreover have "length (lo @ ?c) mod 3 = 0"
      using e(4) by simp
    ultimately show ?thesis
      using e(2,3) False by (intro exI [of _ hi] exI [of _ "lo @ ?c"]) simp
  qed
qed

text \<open>Stripping: the code's scan from the end against the specification's words.\<close>

lemma takeWhile_zeroes:
  "takeWhile (\<lambda>c. c = a) xs = replicate (length (takeWhile (\<lambda>c. c = a) xs)) a"
  by (induction xs) simp_all

lemma suppress_loop_zeroes:
  assumes "t \<noteq> []" "last t \<noteq> CHR ''0''"
  shows "suppress_loop (t @ replicate z (CHR ''0'') @ u) (length t + z) = length t - 1"
proof (induction z arbitrary: u)
  case 0
  from assms(1) obtain m where m: "length t = Suc m"
    by (cases t) simp_all
  then have "t ! m = last t"
    using assms(1) by (simp add: last_conv_nth)
  then show ?case
    using assms(2) m by (simp add: buf_at_def nth_append)
next
  case (Suc z)
  have a: "t @ replicate (Suc z) (CHR ''0'') @ u = t @ replicate z (CHR ''0'') @ (CHR ''0'' # u)"
    by (simp add: replicate_app_Cons_same)
  have b: "buf_at (t @ replicate z (CHR ''0'') @ (CHR ''0'' # u)) (length t + z) = CHR ''0''"
    by (simp add: buf_at_def nth_append)
  have "suppress_loop (t @ replicate (Suc z) (CHR ''0'') @ u) (length t + Suc z) =
          suppress_loop (t @ replicate z (CHR ''0'') @ (CHR ''0'' # u)) (length t + z)"
    unfolding a using b by simp
  then show ?case
    by (simp only: Suc.IH)
qed

lemma suppress_strip:
  assumes "\<exists>c \<in> set s. c \<noteq> CHR ''0''"
  shows "take (suppress_suffix_zeroes s (length s)) s = strip_zeroes s"
proof -
  let ?P = "\<lambda>c. c = CHR ''0''"
  define t where "t = rev (dropWhile ?P (rev s))"
  define z where "z = length (takeWhile ?P (rev s))"
  have "rev s = takeWhile ?P (rev s) @ dropWhile ?P (rev s)"
    by simp
  then have "rev s = replicate z (CHR ''0'') @ rev t"
    unfolding t_def z_def using takeWhile_zeroes [of "CHR ''0''" "rev s"] by simp
  then have "rev (rev s) = rev (replicate z (CHR ''0'') @ rev t)"
    by (rule arg_cong)
  then have s: "s = t @ replicate z (CHR ''0'')"
    by simp
  have dn: "dropWhile ?P (rev s) \<noteq> []"
    using assms by (simp add: dropWhile_eq_Nil_conv)
  then have tn: "t \<noteq> []"
    by (simp add: t_def)
  have "\<not> ?P (hd (dropWhile ?P (rev s)))"
    using dn by (rule hd_dropWhile)
  then have lt: "last t \<noteq> CHR ''0''"
    using dn by (simp add: t_def last_rev)
  from tn obtain m where m: "length t = Suc m"
    by (cases t) simp_all
  have l: "suppress_loop s (length s) = m"
    using suppress_loop_zeroes [OF tn lt, of z "[]"] m by (simp add: s)
  have b: "buf_at s m = last t"
    using tn m by (simp add: s buf_at_def nth_append last_conv_nth)
  have st: "strip_zeroes s = (if last t = CHR ''.'' then butlast t else t)"
    using tn by (simp add: strip_zeroes_def t_def [symmetric])
  have tk: "take (Suc m) s = t" "take m s = butlast t"
    using m by (simp_all add: s butlast_conv_take)
  show ?thesis
  proof (cases "last t = CHR ''.''")
    case True
    then have "suppress_suffix_zeroes s (length s) = m"
      by (simp add: suppress_suffix_zeroes_def l b)
    then show ?thesis
      using True by (simp add: st tk)
  next
    case False
    then have "suppress_suffix_zeroes s (length s) = Suc m"
      by (simp add: suppress_suffix_zeroes_def l b)
    then show ?thesis
      using False by (simp add: st tk)
  qed
qed

lemma group_size:
  fixes h l :: nat
  assumes "1 \<le> h" "h \<le> 3" "l mod 3 = 0"
  shows "(h + l - 1) mod 3 + 1 = h"
proof -
  from assms(3) obtain q where q: "l = 3 * q"
    by (auto simp: mod_eq_0_iff_dvd elim: dvdE)
  from assms(1,2) consider "h = 1" | "h = 2" | "h = 3"
    by linarith
  then show ?thesis
  proof cases
    case 1
    then show ?thesis by (simp add: q)
  next
    case 2
    then have "h + l - 1 = 1 + 3 * q" by (simp add: q)
    then show ?thesis using 2 by (simp only: mod_mult_self2) simp
  next
    case 3
    then have "h + l - 1 = 2 + 3 * q" by (simp add: q)
    then show ?thesis using 3 by (simp only: mod_mult_self2) simp
  qed
qed

lemma group_three: "(l :: nat) \<noteq> 0 \<Longrightarrow> l mod 3 = 0 \<Longrightarrow> 3 \<le> l"
  by (auto simp: mod_eq_0_iff_dvd elim!: dvdE)

lemma decimal_word_length: "length (decimal (unat (hz :: uint32))) \<le> 10"
proof -
  have "unat hz < 2 ^ 32"
    using unsigned_less [of hz] by simp
  then have "unat hz < 10 ^ 10"
    by simp
  then show ?thesis
    using decimal_length_le [of 10 "unat hz"] by simp
qed

lemma to_frequency_format_hz:
  assumes "15 \<le> len"
  shows "to_frequency hz len = format_hz (unat hz)"
proof -
  let ?n = "unat hz"
  have room: "int (length ([] :: string)) + int (length (decimal ?n)) + 1 \<le> int len - 4"
    using decimal_word_length [of hz] assms by simp
  have k: "(0 :: nat) mod 3 = 0"
    by simp
  from loop_groups [OF k room] obtain hi lo where
    x: "to_frequency_loop hz 0 [] (int len - 4) =
          (0 + length hi + length lo,
           [] @ rev lo @ (if (0 :: nat) \<noteq> 0 \<or> lo \<noteq> [] then [CHR ''.''] else []) @ rev hi) \<and>
        decimal ?n = hi @ lo \<and> 1 \<le> length hi \<and> length hi \<le> 3 \<and>
        length lo mod 3 = 0 \<and> (lo = [] \<longleftrightarrow> ?n < 1000)"
    by (elim exE) (rule that, assumption)
  then have r: "to_frequency_loop hz 0 [] (int len - 4) =
          (length hi + length lo, rev lo @ (if lo \<noteq> [] then [CHR ''.''] else []) @ rev hi)"
    and e: "decimal ?n = hi @ lo" "1 \<le> length hi" "length hi \<le> 3" "length lo mod 3 = 0"
    by simp_all
  show ?thesis
  proof (cases "lo = []")
    case True
    then show ?thesis
      using e by (simp add: to_frequency_def format_hz_def r Let_def)
  next
    case False
    then have "length lo \<noteq> 0"
      by simp
    then have l3: "3 \<le> length lo"
      using e(4) by (rule group_three)
    have g: "(length hi + length lo - 1) mod 3 + 1 = length hi"
      using e(2,3,4) by (rule group_size)
    define s where "s = hi @ [CHR ''.''] @ lo"
    have st: "take (suppress_suffix_zeroes s (length s)) s = strip_zeroes s"
      by (rule suppress_strip) (simp add: s_def)
    have r': "to_frequency_loop hz 0 [] (int len - 4) = (length hi + length lo, rev s)"
      using r False by (simp add: s_def)
    have d3: "3 < length hi + length lo" "\<not> length hi + length lo \<le> 3"
      using l3 e(2) by simp_all
    have "to_frequency hz len =
            take (suppress_suffix_zeroes s (length s)) s
              @ (if 6 < length hi + length lo then [CHR ''M''] else [CHR ''k'']) @ ''Hz''"
      using d3 by (simp add: to_frequency_def r' Let_def)
    then have "to_frequency hz len =
            strip_zeroes s
              @ (if 6 < length hi + length lo then [CHR ''M''] else [CHR ''k'']) @ ''Hz''"
      by (simp only: st)
    moreover have tk: "take (length hi) (hi @ lo) @ ''.'' @ drop (length hi) (hi @ lo) = s"
      by (simp add: s_def)
    have g': "(length (hi @ lo) - 1) mod 3 + 1 = length hi"
      using g by simp
    have d3': "\<not> length (hi @ lo) \<le> 3"
      using d3 by simp
    have "format_hz ?n =
            strip_zeroes s @ (if length (hi @ lo) \<le> 6 then ''k'' else ''M'') @ ''Hz''"
      unfolding format_hz_def Let_def e(1) by (simp only: g' d3' if_False tk)
    ultimately show ?thesis
      by (cases "length hi + length lo \<le> 6") simp_all
  qed
qed


lemma format_hz_examples:
  "format_hz 1000000 = ''1MHz''"
  "format_hz 32768 = ''32.768kHz''"
  "format_hz 0 = ''0Hz''"
  "format_hz 1200 = ''1.2kHz''"
  "format_hz 4294967295 = ''4.294967295MHz''"
  by (simp_all add: format_hz_def strip_zeroes_def decimal.simps Let_def char_of_def bit_0)

text \<open>
  Claim C8. In a buffer of 15 bytes or more (the module's buffers have 20) the formatter
  returns, for every 32-bit value, the text the specification describes: the decimal
  digits; for more than three digits a point after the highest-order group of one to
  three digits, with the zero digits at the end and a point left bare stripped; and the
  unit chosen by the number of digits, none up to three, \<open>k\<close> for four to six, \<open>M\<close> for
  more than six. In particular a million is "1MHz", 32768 is "32.768kHz" and zero is
  "0Hz".
\<close>

theorem to_frequency_format:
  "(15 \<le> len \<longrightarrow> to_frequency hz len = format_hz (unat hz)) \<and>
   to_frequency 1000000 20 = ''1MHz'' \<and> to_frequency 32768 20 = ''32.768kHz'' \<and>
   to_frequency 0 20 = ''0Hz''"
proof -
  have "to_frequency 1000000 20 = format_hz (unat (1000000 :: uint32))"
    "to_frequency 32768 20 = format_hz (unat (32768 :: uint32))"
    "to_frequency 0 20 = format_hz (unat (0 :: uint32))"
    by (rule to_frequency_format_hz, simp)+
  then show ?thesis
    by (simp add: to_frequency_format_hz format_hz_examples)
qed

text \<open>
  The largest value in a buffer of 15 bytes, and a value whose last group ends in
  zeroes.
\<close>

theorem to_frequency_format_witness:
  "(15 :: nat) \<le> 15 \<and> to_frequency 4294967295 15 = ''4.294967295MHz'' \<and>
   to_frequency 1200 15 = ''1.2kHz''"
  using to_frequency_format [of 15 4294967295] to_frequency_format [of 15 1200]
  by (simp add: format_hz_examples)


text \<open>
  Claim C9. At an address outside the mapped set of the family, a read returns 1
  (not mine) and a write returns 1, prints nothing and leaves every field of the device
  as it was. A read never changes the device: \<open>clock_read_b\<close> only reads it.
\<close>

theorem unmapped_not_mine:
  "addr \<notin> mapped_addresses (clock_type clk) \<Longrightarrow>
     clock_read_b clk addr = None \<and> clock_write_b clk addr data = (1, clk, [])"
  by (cases "clock_type clk")
     (simp_all add: mapped_addresses_def clock_read_b_def clock_write_b_def)

theorem unmapped_not_mine_witness:
  "BCSCTL3 \<notin> mapped_addresses (clock_type (created ''basic'')) \<and>
   clock_read_b (created ''basic'') BCSCTL3 = None \<and>
   clock_write_b (created ''basic'') BCSCTL3 0x20 = (1, created ''basic'', [])"
proof -
  have h: "BCSCTL3 \<notin> mapped_addresses (clock_type (created ''basic''))"
    by (simp add: mapped_addresses_def BCSCTL3_def DCOCTL_def BCSCTL1_def BCSCTL2_def)
  show ?thesis using h unmapped_not_mine [OF h, of "0x20"] by simp
qed

text \<open>The three registers of both families are stored and read back.\<close>

lemma register_round_trip:
  "addr \<in> {DCOCTL, BCSCTL1, BCSCTL2} \<Longrightarrow>
     fst (clock_write_b clk addr v) = 0 \<and>
     clock_read_b (fst (snd (clock_write_b clk addr v))) addr = Some v"
  by (auto simp: clock_write_b_def clock_read_b_def DCOCTL_def BCSCTL1_def BCSCTL2_def BCSCTL3_def)

text \<open>
  A handled write to BCSCTL3 stores nothing: the register reads back as before.
\<close>

lemma bcsctl3_read_after_write:
  "clock_type clk = CLOCK_TYPE_BASIC_PLUS \<Longrightarrow>
     fst (clock_write_b clk BCSCTL3 v) = 0 \<and>
     clock_read_b (fst (snd (clock_write_b clk BCSCTL3 v))) BCSCTL3 = Some (bcsctl3 clk)"
  by (simp add: clock_write_b_def clock_read_b_def DCOCTL_def BCSCTL1_def BCSCTL2_def BCSCTL3_def)

lemma bcsctl3_reset_plus: "bcsctl3 (created ''basic+'') = 0x03"
  by (simp add: created_def create_basic_plus clock_reset_def zero_clock_def Let_def)

text \<open>
  Claim C1. The round trip of a written byte fails at BCSCTL3 of a Basic+ device: on
  the device after reset, the write of 0x20 is handled (status 0), and the read that
  follows returns the reset value 0x03, not 0x20.
\<close>

theorem bcsctl3_write_not_stored:
  "fst (clock_write_b (created ''basic+'') BCSCTL3 0x20) = 0 \<and>
   clock_read_b (fst (snd (clock_write_b (created ''basic+'') BCSCTL3 0x20))) BCSCTL3 = Some 0x03"
  by (simp add: clock_write_b_def clock_read_b_def bcsctl3_reset_plus
        DCOCTL_def BCSCTL1_def BCSCTL2_def BCSCTL3_def)


lemma config_frequency_failure:
  "ret (config_frequency clk hz arg_text err) = 0 \<or>
   dev (config_frequency clk hz arg_text err) = clk"
  by (simp add: config_frequency_def Let_def split: prod.split option.split)

lemma config_ratio_failure:
  "ret (config_ratio clk data arg_text err) = 0 \<or>
   dev (config_ratio clk data arg_text err) = clk"
  by (simp add: config_ratio_def Let_def split: prod.split option.split)

lemma get_arg_12abc: "get_arg ''12abc'' = (Some ''12abc'', [])"
  by (simp add: get_arg_def c_isspace_def)

lemma config_lfxt1_12abc:
  "ret (clock_config (created ''basic'') ''lfxt1'' ''12abc'' 0) = - 1"
  by (simp add: clock_config_def config_frequency_def get_arg_12abc strcaseeq_def
        c_tolower_def c_isupper_def c_isdigit_def Let_def)

lemma clock_config_failure:
  "ret (clock_config clk param arg_text err) = 0 \<or>
   dev (clock_config clk param arg_text err) = clk"
  by (simp add: clock_config_def config_frequency_failure config_ratio_failure)

text \<open>
  Claim C10. A configuration call that fails (status other than 0) returns the device
  exactly as it received it: no parameter, register, derived frequency or accumulator
  has changed.
\<close>

theorem config_failure_atomic:
  "ret (clock_config clk param arg_text err) \<noteq> 0 \<Longrightarrow>
     dev (clock_config clk param arg_text err) = clk"
  using clock_config_failure [of clk param arg_text err] by blast

theorem config_failure_atomic_witness:
  "ret (clock_config (created ''basic'') ''lfxt1'' ''12abc'' 0) \<noteq> 0 \<and>
   dev (clock_config (created ''basic'') ''lfxt1'' ''12abc'' 0) = created ''basic''"
proof -
  have h: "ret (clock_config (created ''basic'') ''lfxt1'' ''12abc'' 0) \<noteq> 0"
    by (simp add: config_lfxt1_12abc)
  show ?thesis using h config_failure_atomic [OF h] by simp
qed

lemma d_le_NaN_right [simp]: "d_le a NaN = False"
  by (cases a) simp_all

lemma get_arg_nan: "get_arg ''nan'' = (Some ''nan'', [])"
  by (simp add: get_arg_def c_isspace_def)

lemma strtod_nan: "strtod ''nan'' err = (NaN, [], err)"
  by (simp add: strtod_def c_isspace_def c_tolower_def c_isupper_def nan_tail_def
        scan_mantissa_def digit_val_def Let_def)

text \<open>
  The token \<open>nan\<close> passes both bound checks of \<open>config_ratio\<close>, which are false
  on a NaN: the call succeeds and stores the NaN as the range step.
\<close>

lemma config_ratio_accepts_nan:
  "ret (clock_config (created ''basic'') ''srsel'' ''nan'' 0) = 0 \<and>
   srsel (dev (clock_config (created ''basic'') ''srsel'' ''nan'' 0)) = NaN"
  by (simp add: clock_config_def config_ratio_def get_arg_nan strtod_nan strcaseeq_def
        c_tolower_def c_isupper_def d_ge_def ERANGE_def)


lemma sint_of_int_small:
  "- (2 ^ 31) \<le> k \<Longrightarrow> k < 2 ^ 31 \<Longrightarrow> sint (word_of_int k :: int32) = k"
  by (simp add: sint_sbintrunc' signed_take_bit_int_eq_self)

lemma counter_sum:
  "(a :: int32) + t * m = word_of_int (sint a + sint t * sint m)"
  by simp

lemma c_div_nonneg:
  assumes "0 \<le> k" "k < 2 ^ 31" "0 < sint h"
  shows "c_div (word_of_int k) h = word_of_int (k div sint h)"
    and "sint (word_of_int (k div sint h) :: int32) = k div sint h"
proof -
  have k: "sint (word_of_int k :: int32) = k"
    using assms by (simp add: sint_of_int_small)
  have "k sdiv sint h = k div sint h"
    using assms by (cases "k = 0") (simp_all add: signed_divide_int_def sgn_if)
  then show "c_div (word_of_int k) h = word_of_int (k div sint h)"
    by (simp add: c_div_def k)
  have "0 \<le> k div sint h"
    using assms by (simp add: pos_imp_zdiv_nonneg_iff)
  moreover have "k div sint h \<le> k"
    using assms by (cases "k = 0") (simp_all add: int_div_le_self)
  ultimately have "0 \<le> k div sint h" "k div sint h \<le> k"
    by simp_all
  then have "- (2 ^ 31) \<le> k div sint h" "k div sint h < 2 ^ 31"
    using assms by linarith+
  then show "sint (word_of_int (k div sint h) :: int32) = k div sint h"
    by (rule sint_of_int_small)
qed

lemma c_rem_nonneg:
  assumes "0 \<le> k" "k < 2 ^ 31" "0 < sint h"
  shows "c_rem (word_of_int k) h = word_of_int (k mod sint h)"
    and "sint (word_of_int (k mod sint h) :: int32) = k mod sint h"
proof -
  have k: "sint (word_of_int k :: int32) = k"
    using assms by (simp add: sint_of_int_small)
  have "k smod sint h = k mod sint h"
    using assms by (cases "k = 0") (simp_all add: signed_modulo_int_def sgn_if)
  then show "c_rem (word_of_int k) h = word_of_int (k mod sint h)"
    by (simp add: c_rem_def k)
  have "0 \<le> k mod sint h" "k mod sint h \<le> k"
    using assms by (simp_all add: zmod_le_nonneg_dividend)
  then have "- (2 ^ 31) \<le> k mod sint h" "k mod sint h < 2 ^ 31"
    using assms by linarith+
  then show "sint (word_of_int (k mod sint h) :: int32) = k mod sint h"
    by (rule sint_of_int_small)
qed

lemma div_fault_none:
  "0 < sint h \<Longrightarrow> div_fault a h = None"
  by (auto simp: div_fault_def)


lemma update_hz:
  "aclk_hz (update_clock_frequencies c) =
     signed_drop_bit (unat (drop_bit 4 (bcsctl1 c AND 0x30)))
       (if clock_type c = CLOCK_TYPE_BASIC_PLUS \<and> bcsctl3 c AND 0x30 = 0x20
        then vlo_hz c else lfxt1_hz c)"
  "bcsctl2 c AND 0xc0 = 0xc0 \<Longrightarrow> mclk_hz (update_clock_frequencies c) =
     signed_drop_bit (unat (drop_bit 4 (bcsctl2 c AND 0x30)))
       (if clock_type c = CLOCK_TYPE_BASIC_PLUS \<and> bcsctl3 c AND 0x30 = 0x20
        then vlo_hz c else lfxt1_hz c)"
  "bcsctl2 c AND 0x08 \<noteq> 0 \<Longrightarrow> \<not> 0 < sint (xt2_hz c) \<Longrightarrow>
   smclk_hz (update_clock_frequencies c) =
     signed_drop_bit (unat (drop_bit 1 (bcsctl2 c AND 0x06)))
       (if clock_type c = CLOCK_TYPE_BASIC_PLUS \<and> bcsctl3 c AND 0x30 = 0x20
        then vlo_hz c else lfxt1_hz c)"
  by (simp_all add: update_clock_frequencies_def Let_def)

lemma get_arg_30000: "get_arg ''30000'' = (Some ''30000'', [])"
  by (simp add: get_arg_def c_isspace_def)

lemma get_arg_32768: "get_arg ''32768'' = (Some ''32768'', [])"
  by (simp add: get_arg_def c_isspace_def)

lemma config_lfxt1_30000:
  "dev (clock_config clk ''lfxt1'' ''30000'' err) =
     update_clock_frequencies (clk\<lparr>lfxt1_hz := 30000\<rparr>)"
  by (simp add: clock_config_def config_frequency_def get_arg_30000 strcaseeq_def
        c_tolower_def c_isupper_def c_isdigit_def multiply_power_of_10_def Let_def)

lemma config_lfxt1_32768:
  "dev (clock_config clk ''lfxt1'' ''32768'' err) =
     update_clock_frequencies (clk\<lparr>lfxt1_hz := 32768\<rparr>)"
  by (simp add: clock_config_def config_frequency_def get_arg_32768 strcaseeq_def
        c_tolower_def c_isupper_def c_isdigit_def multiply_power_of_10_def Let_def)

lemma created_basic_xt2 [simp]: "xt2_hz (created ''basic'') = 0"
  by (simp add: created_def create_basic clock_reset_def zero_clock_def Let_def)

lemma reset_keeps [simp]:
  "clock_type (clock_reset c) = clock_type c"
  "lfxt1_hz (clock_reset c) = lfxt1_hz c"
  "xt2_hz (clock_reset c) = xt2_hz c"
  "aclk_counter (clock_reset c) = 0"
  "smclk_counter (clock_reset c) = 0"
  by (simp_all add: clock_reset_def Let_def)

lemma reset_basic_bcsctl1 [simp]:
  "clock_type c = CLOCK_TYPE_BASIC \<Longrightarrow> bcsctl1 (clock_reset c) = 0x84"
  by (simp add: clock_reset_def Let_def)

lemma overflow_device_fields:
  "aclk_hz (crystal_device ''30000'' 0xC8) = 30000"
  "smclk_hz (crystal_device ''30000'' 0xC8) = 30000"
  "mclk_hz (crystal_device ''30000'' 0xC8) = 30000"
  "aclk_counter (crystal_device ''30000'' 0xC8) = 0"
  "smclk_counter (crystal_device ''30000'' 0xC8) = 0"
  by (simp_all add: crystal_device_def config_lfxt1_30000 clock_write_b_def update_hz
        DCOCTL_def BCSCTL1_def BCSCTL2_def BCSCTL3_def)

lemma running_device_fields:
  "aclk_hz (crystal_device ''32768'' 0xD8) = 32768"
  "smclk_hz (crystal_device ''32768'' 0xD8) = 32768"
  "mclk_hz (crystal_device ''32768'' 0xD8) = 16384"
  "aclk_counter (crystal_device ''32768'' 0xD8) = 0"
  "smclk_counter (crystal_device ''32768'' 0xD8) = 0"
  "clock_type (crystal_device ''32768'' 0xD8) = CLOCK_TYPE_BASIC"
  "lfxt1_hz (crystal_device ''32768'' 0xD8) = 32768"
  "xt2_hz (crystal_device ''32768'' 0xD8) = 0"
  "bcsctl2 (crystal_device ''32768'' 0xD8) = 0xD8"
  by (simp_all add: crystal_device_def config_lfxt1_32768 clock_write_b_def update_hz
        DCOCTL_def BCSCTL1_def BCSCTL2_def BCSCTL3_def)


text \<open>
  The step on a device whose domain frequencies are positive returns, with the wrapped
  sums divided in \<open>int32_t\<close>.
\<close>

lemma clock_step_returns:
  assumes ha: "0 < sint (aclk_hz clk)" and hs: "0 < sint (smclk_hz clk)"
  shows "clock_step clk status clocks =
           Inr (clk\<lparr>aclk_counter :=
                      c_rem (aclk_counter clk + ticks_mclk clocks * mclk_hz clk) (aclk_hz clk),
                    smclk_counter :=
                      c_rem (smclk_counter clk + ticks_mclk clocks * mclk_hz clk) (smclk_hz clk)\<rparr>,
                clocks\<lparr>ticks_aclk :=
                         c_div (aclk_counter clk + ticks_mclk clocks * mclk_hz clk) (aclk_hz clk),
                       ticks_smclk :=
                         c_div (smclk_counter clk + ticks_mclk clocks * mclk_hz clk) (smclk_hz clk)\<rparr>)"
  unfolding clock_step_def Let_def
  by (simp only: div_fault_none [OF ha] div_fault_none [OF hs] option.case)

text \<open>One domain: the sum in range gives the quotient and the remainder of the integers.\<close>

lemma domain_quotient:
  assumes r: "0 \<le> sint r + sint t * sint m" "sint r + sint t * sint m < 2 ^ 31"
    and h: "0 < sint h"
  shows "sint (c_div (r + t * m) h) = (sint r + sint t * sint m) div sint h"
    and "sint (c_rem (r + t * m) h) = (sint r + sint t * sint m) mod sint h"
proof -
  have a: "r + t * m = word_of_int (sint r + sint t * sint m)"
    by (rule counter_sum)
  show "sint (c_div (r + t * m) h) = (sint r + sint t * sint m) div sint h"
    unfolding a by (simp only: c_div_nonneg [OF r h])
  show "sint (c_rem (r + t * m) h) = (sint r + sint t * sint m) mod sint h"
    unfolding a by (simp only: c_rem_nonneg [OF r h])
qed

text \<open>
  Claim C3, amended. On a device whose sub-main and auxiliary frequencies are positive
  the step returns. For each of the two domains on its own, when r + ticks * main\_hz is
  non-negative and below 2^31 for the accumulator r of the domain, the step writes
  (r + ticks * main\_hz) div domain\_hz into the slot of the domain and leaves
  (r + ticks * main\_hz) mod domain\_hz in its accumulator. The main slot and every other
  field of the device keep their values.
\<close>

theorem step_elapsed_ticks:
  assumes "0 < sint (aclk_hz clk)" and "0 < sint (smclk_hz clk)"
  shows "case clock_step clk status clocks of
           Inl f \<Rightarrow> False
         | Inr (clk1, out) \<Rightarrow>
             (0 \<le> sint (aclk_counter clk) + sint (ticks_mclk clocks) * sint (mclk_hz clk) \<and>
              sint (aclk_counter clk) + sint (ticks_mclk clocks) * sint (mclk_hz clk) < 2 ^ 31 \<longrightarrow>
                sint (ticks_aclk out) =
                  (sint (aclk_counter clk) + sint (ticks_mclk clocks) * sint (mclk_hz clk))
                    div sint (aclk_hz clk) \<and>
                sint (aclk_counter clk1) =
                  (sint (aclk_counter clk) + sint (ticks_mclk clocks) * sint (mclk_hz clk))
                    mod sint (aclk_hz clk)) \<and>
             (0 \<le> sint (smclk_counter clk) + sint (ticks_mclk clocks) * sint (mclk_hz clk) \<and>
              sint (smclk_counter clk) + sint (ticks_mclk clocks) * sint (mclk_hz clk) < 2 ^ 31 \<longrightarrow>
                sint (ticks_smclk out) =
                  (sint (smclk_counter clk) + sint (ticks_mclk clocks) * sint (mclk_hz clk))
                    div sint (smclk_hz clk) \<and>
                sint (smclk_counter clk1) =
                  (sint (smclk_counter clk) + sint (ticks_mclk clocks) * sint (mclk_hz clk))
                    mod sint (smclk_hz clk)) \<and>
             ticks_mclk out = ticks_mclk clocks \<and>
             clk1 = clk\<lparr>aclk_counter := aclk_counter clk1,
                         smclk_counter := smclk_counter clk1\<rparr>"
  by (simp add: clock_step_returns [OF assms] domain_quotient [OF _ _ assms(1)]
        domain_quotient [OF _ _ assms(2)])


theorem step_elapsed_ticks_witness:
  "0 < sint (aclk_hz (crystal_device ''32768'' 0xD8)) \<and>
   0 < sint (smclk_hz (crystal_device ''32768'' 0xD8)) \<and>
   sint (aclk_counter (crystal_device ''32768'' 0xD8)) +
      sint (ticks_mclk \<lparr>ticks_mclk = 1, ticks_smclk = 0, ticks_aclk = 0\<rparr>) *
      sint (mclk_hz (crystal_device ''32768'' 0xD8)) = 16384 \<and>
   sint (smclk_counter (crystal_device ''32768'' 0xD8)) +
      sint (ticks_mclk \<lparr>ticks_mclk = 1, ticks_smclk = 0, ticks_aclk = 0\<rparr>) *
      sint (mclk_hz (crystal_device ''32768'' 0xD8)) = 16384 \<and>
   (case clock_step (crystal_device ''32768'' 0xD8) 0
           \<lparr>ticks_mclk = 1, ticks_smclk = 0, ticks_aclk = 0\<rparr> of
      Inl f \<Rightarrow> False
    | Inr (clk1, out) \<Rightarrow>
        sint (ticks_aclk out) = 0 \<and> sint (aclk_counter clk1) = 16384 \<and>
        sint (ticks_smclk out) = 0 \<and> sint (smclk_counter clk1) = 16384 \<and>
        ticks_mclk out = 1)"
proof -
  let ?D = "crystal_device ''32768'' 0xD8"
  let ?T = "\<lparr>ticks_mclk = 1, ticks_smclk = 0, ticks_aclk = 0\<rparr> :: tick_counts"
  have h1: "sint (aclk_counter ?D) + sint (ticks_mclk ?T) * sint (mclk_hz ?D) = 16384"
    by (simp add: running_device_fields)
  have h2: "sint (smclk_counter ?D) + sint (ticks_mclk ?T) * sint (mclk_hz ?D) = 16384"
    by (simp add: running_device_fields)
  have h4: "0 < sint (aclk_hz ?D)" "0 < sint (smclk_hz ?D)"
    by (simp_all add: running_device_fields)
  from step_elapsed_ticks [OF h4, where status = 0 and clocks = ?T]
  have "case clock_step ?D 0 ?T of
          Inl f \<Rightarrow> False
        | Inr (clk1, out) \<Rightarrow>
            sint (ticks_aclk out) = 0 \<and> sint (aclk_counter clk1) = 16384 \<and>
            sint (ticks_smclk out) = 0 \<and> sint (smclk_counter clk1) = 16384 \<and>
            ticks_mclk out = 1"
    unfolding h1 h2 by (auto simp: running_device_fields split: sum.splits)
  with h1 h2 h4 show ?thesis
    by blast
qed

text \<open>
  The claim as stated fails where the product wraps: with a 30 kHz crystal feeding all
  three domains and 100000 elapsed ticks, r + ticks * main\_hz is 3000000000; the
  accumulator wraps to -1294967296, the slot receives -43165 (the quotient truncated
  towards zero, where the floor of the wrapped value is -43166 and the claim's quotient is
  100000), and the accumulator is left at -17296.
\<close>

lemma step_overflow:
  "step_mclk (crystal_device ''30000'' 0xC8) 100000 =
     Inr ((crystal_device ''30000'' 0xC8)\<lparr>aclk_counter := - 17296, smclk_counter := - 17296\<rparr>,
          \<lparr>ticks_mclk = 100000, ticks_smclk = - 43165, ticks_aclk = - 43165\<rparr>)"
  by (simp add: step_mclk_def clock_step_def overflow_device_fields div_fault_def
        c_div_def c_rem_def signed_divide_int_def signed_modulo_int_def)

theorem step_overflow_counterexample:
  "\<not> isl (step_mclk (crystal_device ''30000'' 0xC8) 100000) \<and>
   sint (ticks_aclk (snd (projr (step_mclk (crystal_device ''30000'' 0xC8) 100000)))) = - 43165 \<and>
   sint (aclk_counter (fst (projr (step_mclk (crystal_device ''30000'' 0xC8) 100000)))) = - 17296 \<and>
   (sint (aclk_counter (crystal_device ''30000'' 0xC8)) +
      100000 * sint (mclk_hz (crystal_device ''30000'' 0xC8)))
     div sint (aclk_hz (crystal_device ''30000'' 0xC8)) = 100000 \<and>
   (sint (aclk_counter (crystal_device ''30000'' 0xC8)) +
      100000 * sint (mclk_hz (crystal_device ''30000'' 0xC8)))
     mod sint (aclk_hz (crystal_device ''30000'' 0xC8)) = 0 \<and>
   sint (aclk_counter (crystal_device ''30000'' 0xC8) +
         100000 * mclk_hz (crystal_device ''30000'' 0xC8))
     div sint (aclk_hz (crystal_device ''30000'' 0xC8)) = - 43166"
  by (simp add: step_overflow overflow_device_fields)


lemma store_freq_counters [simp]:
  "aclk_counter (store_freq hz v c) = aclk_counter c"
  "smclk_counter (store_freq hz v c) = smclk_counter c"
  by (cases hz; simp)+

lemma store_ratio_counters [simp]:
  "aclk_counter (store_ratio data v c) = aclk_counter c"
  "smclk_counter (store_ratio data v c) = smclk_counter c"
  by (cases data; simp)+

lemma config_frequency_counters:
  "aclk_counter (dev (config_frequency clk hz arg_text err)) = aclk_counter clk"
  "smclk_counter (dev (config_frequency clk hz arg_text err)) = smclk_counter clk"
  by (simp_all add: config_frequency_def Let_def split: prod.split option.split)

lemma config_ratio_counters:
  "aclk_counter (dev (config_ratio clk data arg_text err)) = aclk_counter clk"
  "smclk_counter (dev (config_ratio clk data arg_text err)) = smclk_counter clk"
  by (simp_all add: config_ratio_def Let_def split: prod.split option.split)

lemma clock_config_counters:
  "aclk_counter (dev (clock_config clk param arg_text err)) = aclk_counter clk"
  "smclk_counter (dev (clock_config clk param arg_text err)) = smclk_counter clk"
  by (simp_all add: clock_config_def config_frequency_counters config_ratio_counters)

lemma clock_write_b_counters:
  "aclk_counter (fst (snd (clock_write_b clk addr v))) = aclk_counter clk"
  "smclk_counter (fst (snd (clock_write_b clk addr v))) = smclk_counter clk"
  by (simp_all add: clock_write_b_def)

lemma domain_remainder:
  assumes r: "0 \<le> sint r + sint t * sint m" "sint r + sint t * sint m < 2 ^ 31"
    and h: "0 < sint h"
  shows "0 \<le> sint (c_rem (r + t * m) h)" and "sint (c_rem (r + t * m) h) < sint h"
  using h by (simp_all add: domain_quotient(2) [OF r h])

text \<open>
  Claim C4, amended. Reset clears both accumulators. Register writes and configuration
  calls leave the accumulators as they are, also when they change the frequency the
  bound refers to. A step on a device whose sub-main and auxiliary frequencies are
  positive returns, keeps both frequencies, and for each of the two domains on its own,
  when r + ticks * main\_hz is non-negative and below 2^31 for the accumulator r of the
  domain, leaves 0 \<le> r < domain\_hz.
\<close>

theorem accumulators_after_operations:
  "aclk_counter (clock_reset clk) = 0 \<and> smclk_counter (clock_reset clk) = 0 \<and>
   aclk_counter (fst (snd (clock_write_b clk addr v))) = aclk_counter clk \<and>
   smclk_counter (fst (snd (clock_write_b clk addr v))) = smclk_counter clk \<and>
   aclk_counter (dev (clock_config clk param arg_text err)) = aclk_counter clk \<and>
   smclk_counter (dev (clock_config clk param arg_text err)) = smclk_counter clk \<and>
   (0 < sint (aclk_hz clk) \<and> 0 < sint (smclk_hz clk) \<longrightarrow>
      (case clock_step clk status clocks of
         Inl f \<Rightarrow> False
       | Inr (clk1, out) \<Rightarrow>
           aclk_hz clk1 = aclk_hz clk \<and> smclk_hz clk1 = smclk_hz clk \<and>
           (0 \<le> sint (aclk_counter clk) + sint (ticks_mclk clocks) * sint (mclk_hz clk) \<and>
            sint (aclk_counter clk) + sint (ticks_mclk clocks) * sint (mclk_hz clk) < 2 ^ 31 \<longrightarrow>
              0 \<le> sint (aclk_counter clk1) \<and> sint (aclk_counter clk1) < sint (aclk_hz clk1)) \<and>
           (0 \<le> sint (smclk_counter clk) + sint (ticks_mclk clocks) * sint (mclk_hz clk) \<and>
            sint (smclk_counter clk) + sint (ticks_mclk clocks) * sint (mclk_hz clk) < 2 ^ 31 \<longrightarrow>
              0 \<le> sint (smclk_counter clk1) \<and>
              sint (smclk_counter clk1) < sint (smclk_hz clk1))))"
proof -
  have "case clock_step clk status clocks of
         Inl f \<Rightarrow> False
       | Inr (clk1, out) \<Rightarrow>
           aclk_hz clk1 = aclk_hz clk \<and> smclk_hz clk1 = smclk_hz clk \<and>
           (0 \<le> sint (aclk_counter clk) + sint (ticks_mclk clocks) * sint (mclk_hz clk) \<and>
            sint (aclk_counter clk) + sint (ticks_mclk clocks) * sint (mclk_hz clk) < 2 ^ 31 \<longrightarrow>
              0 \<le> sint (aclk_counter clk1) \<and> sint (aclk_counter clk1) < sint (aclk_hz clk1)) \<and>
           (0 \<le> sint (smclk_counter clk) + sint (ticks_mclk clocks) * sint (mclk_hz clk) \<and>
            sint (smclk_counter clk) + sint (ticks_mclk clocks) * sint (mclk_hz clk) < 2 ^ 31 \<longrightarrow>
              0 \<le> sint (smclk_counter clk1) \<and>
              sint (smclk_counter clk1) < sint (smclk_hz clk1))"
    if h: "0 < sint (aclk_hz clk)" "0 < sint (smclk_hz clk)"
    by (simp add: clock_step_returns [OF h] domain_remainder [OF _ _ h(1)]
          domain_remainder [OF _ _ h(2)])
  then show ?thesis
    by (simp add: clock_config_counters clock_write_b_counters)
qed

theorem accumulators_after_operations_witness:
  "0 < sint (aclk_hz (crystal_device ''32768'' 0xD8)) \<and>
   0 < sint (smclk_hz (crystal_device ''32768'' 0xD8)) \<and>
   sint (aclk_counter (crystal_device ''32768'' 0xD8)) +
      sint (ticks_mclk \<lparr>ticks_mclk = 1, ticks_smclk = 0, ticks_aclk = 0\<rparr>) *
      sint (mclk_hz (crystal_device ''32768'' 0xD8)) = 16384 \<and>
   sint (smclk_counter (crystal_device ''32768'' 0xD8)) +
      sint (ticks_mclk \<lparr>ticks_mclk = 1, ticks_smclk = 0, ticks_aclk = 0\<rparr>) *
      sint (mclk_hz (crystal_device ''32768'' 0xD8)) = 16384 \<and>
   (case clock_step (crystal_device ''32768'' 0xD8) 0
           \<lparr>ticks_mclk = 1, ticks_smclk = 0, ticks_aclk = 0\<rparr> of
      Inl f \<Rightarrow> False
    | Inr (clk1, out) \<Rightarrow>
        0 \<le> sint (aclk_counter clk1) \<and> sint (aclk_counter clk1) < sint (aclk_hz clk1) \<and>
        0 \<le> sint (smclk_counter clk1) \<and> sint (smclk_counter clk1) < sint (smclk_hz clk1))"
proof -
  let ?D = "crystal_device ''32768'' 0xD8"
  let ?T = "\<lparr>ticks_mclk = 1, ticks_smclk = 0, ticks_aclk = 0\<rparr> :: tick_counts"
  have h1: "sint (aclk_counter ?D) + sint (ticks_mclk ?T) * sint (mclk_hz ?D) = 16384"
    by (simp add: running_device_fields)
  have h2: "sint (smclk_counter ?D) + sint (ticks_mclk ?T) * sint (mclk_hz ?D) = 16384"
    by (simp add: running_device_fields)
  have h4: "0 < sint (aclk_hz ?D)" "0 < sint (smclk_hz ?D)"
    by (simp_all add: running_device_fields)
  from accumulators_after_operations [where clk = ?D and addr = 0 and v = 0 and param = "[]"
      and arg_text = "[]" and err = 0 and status = 0 and clocks = ?T] h4
  have "case clock_step ?D 0 ?T of
          Inl f \<Rightarrow> False
        | Inr (clk1, out) \<Rightarrow>
            0 \<le> sint (aclk_counter clk1) \<and> sint (aclk_counter clk1) < sint (aclk_hz clk1) \<and>
            0 \<le> sint (smclk_counter clk1) \<and> sint (smclk_counter clk1) < sint (smclk_hz clk1)"
    unfolding h1 h2 by (auto split: sum.splits)
  with h1 h2 h4 show ?thesis
    by blast
qed

text \<open>
  The bound is not preserved by a register write. With a 32768 Hz crystal, MCLK divided
  by two and one tick stepped, both accumulators hold 16384 and the bound holds; the
  write of 0xB4 to BCSCTL1 (ACLK divided by eight) is handled and leaves the auxiliary
  accumulator at 16384 with an auxiliary frequency of 4096 Hz.
\<close>

lemma step_running:
  "step_mclk (crystal_device ''32768'' 0xD8) 1 =
     Inr ((crystal_device ''32768'' 0xD8)\<lparr>aclk_counter := 16384, smclk_counter := 16384\<rparr>,
          \<lparr>ticks_mclk = 1, ticks_smclk = 0, ticks_aclk = 0\<rparr>)"
  by (simp add: step_mclk_def clock_step_def running_device_fields div_fault_def
        c_div_def c_rem_def signed_divide_int_def signed_modulo_int_def)

theorem divider_write_counterexample:
  "0 \<le> sint (aclk_counter (fst (projr (step_mclk (crystal_device ''32768'' 0xD8) 1)))) \<and>
   sint (aclk_counter (fst (projr (step_mclk (crystal_device ''32768'' 0xD8) 1))))
     < sint (aclk_hz (fst (projr (step_mclk (crystal_device ''32768'' 0xD8) 1)))) \<and>
   0 \<le> sint (smclk_counter (fst (projr (step_mclk (crystal_device ''32768'' 0xD8) 1)))) \<and>
   sint (smclk_counter (fst (projr (step_mclk (crystal_device ''32768'' 0xD8) 1))))
     < sint (smclk_hz (fst (projr (step_mclk (crystal_device ''32768'' 0xD8) 1)))) \<and>
   fst (clock_write_b (fst (projr (step_mclk (crystal_device ''32768'' 0xD8) 1))) BCSCTL1 0xB4) = 0 \<and>
   sint (aclk_hz (fst (snd (clock_write_b
            (fst (projr (step_mclk (crystal_device ''32768'' 0xD8) 1))) BCSCTL1 0xB4)))) = 4096 \<and>
   sint (smclk_hz (fst (snd (clock_write_b
            (fst (projr (step_mclk (crystal_device ''32768'' 0xD8) 1))) BCSCTL1 0xB4)))) = 32768 \<and>
   sint (aclk_counter (fst (snd (clock_write_b
            (fst (projr (step_mclk (crystal_device ''32768'' 0xD8) 1))) BCSCTL1 0xB4)))) = 16384"
  by (simp add: step_running running_device_fields clock_write_b_def update_hz
        DCOCTL_def BCSCTL1_def BCSCTL2_def BCSCTL3_def)


declare calibrate_loop.simps [simp del]

lemma calibrate_loop_seen:
  "set seen \<subseteq> set (snd (calibrate_loop clk target cal bitv min_delta best_cal seen))"
proof (induction clk target cal bitv min_delta best_cal seen rule: calibrate_loop.induct)
  case (1 clk target cal bitv min_delta best_cal seen)
  show ?case
  proof (cases "bitv = 0")
    case True
    then show ?thesis by (simp add: calibrate_loop.simps)
  next
    case False
    from 1 [OF False refl refl refl refl refl refl refl]
    show ?thesis
      by (subst calibrate_loop.simps) (simp add: False Let_def)
  qed
qed

lemma calibrate_loop_first:
  "bitv \<noteq> 0 \<Longrightarrow>
     cal \<in> set (snd (calibrate_loop clk target cal bitv min_delta best_cal seen))"
  using calibrate_loop_seen [of "seen @ [cal]" clk target]
  by (subst calibrate_loop.simps) (auto simp: Let_def)

lemma calibrate_loop_length:
  "k < 16 \<Longrightarrow>
     length (snd (calibrate_loop clk target cal (2 ^ k) min_delta best_cal seen)) =
       length seen + k + 1"
proof (induction k arbitrary: cal min_delta best_cal seen)
  case 0
  show ?case
    by (subst calibrate_loop.simps) (simp add: Let_def calibrate_loop.simps)
next
  case (Suc k)
  have nz: "(2 :: uint16) ^ Suc k \<noteq> 0"
    using Suc.prems by (simp only: exp_eq_zero_iff) simp
  have sh: "drop_bit 1 ((2 :: uint16) ^ Suc k) = 2 ^ k"
    using Suc.prems by (simp only: drop_bit_exp_eq) simp
  from Suc.prems have "k < 16" by simp
  note ih = Suc.IH [OF this]
  show ?case
    by (subst calibrate_loop.simps) (simp only: nz sh if_False Let_def ih, simp)
qed


lemma sint_int32_le: "sint (w :: int32) \<le> 2 ^ 31 - 1"
  using sint_lt [of w] by simp

lemma calibrate_loop_min:
  assumes "calibrate_loop clk target cal bitv min_delta best_cal seen = (best, fin)"
    and "\<forall>c\<in>set seen. sint min_delta \<le> abs_delta clk target c"
    and "(best_cal \<in> set seen \<and> abs_delta clk target best_cal = sint min_delta) \<or>
         (best_cal = cal \<and> bitv \<noteq> 0 \<and> sint min_delta = 2 ^ 31 - 1)"
  shows "best \<in> set fin \<and> (\<forall>c\<in>set fin. abs_delta clk target best \<le> abs_delta clk target c)"
  using assms
proof (induction clk target cal bitv min_delta best_cal seen rule: calibrate_loop.induct)
  case (1 clk target cal bitv min_delta best_cal seen)
  show ?case
  proof (cases "bitv = 0")
    case True
    with "1.prems" show ?thesis
      by (auto simp: calibrate_loop.simps)
  next
    case False
    define delta where
      "delta = calc_dcoclk clk (ucast (cal AND 0xff)) (ucast (drop_bit 8 cal)) - target"
    define better where "better = (sint (c_abs delta) < sint min_delta)"
    define min_delta1 where "min_delta1 = (if better then c_abs delta else min_delta)"
    define best_cal1 where "best_cal1 = (if better then cal else best_cal)"
    define cal1 where "cal1 = (if 0 < sint delta then cal AND NOT bitv else cal)"
    define bit1 where "bit1 = drop_bit 1 bitv"
    define cal2 where "cal2 = cal1 OR bit1"
    have a: "abs_delta clk target cal = sint (c_abs delta)"
      by (simp add: abs_delta_def delta_def)
    have step: "calibrate_loop clk target cal bitv min_delta best_cal seen =
                  calibrate_loop clk target cal2 bit1 min_delta1 best_cal1 (seen @ [cal])"
      by (subst calibrate_loop.simps)
         (simp add: False Let_def delta_def better_def min_delta1_def best_cal1_def
            cal1_def bit1_def cal2_def)
    with "1.prems"(1)
    have r: "calibrate_loop clk target cal2 bit1 min_delta1 best_cal1 (seen @ [cal]) = (best, fin)"
      by simp
    have i1: "\<forall>c\<in>set (seen @ [cal]). sint min_delta1 \<le> abs_delta clk target c"
      using "1.prems"(2) by (auto simp: min_delta1_def better_def a)
    have i2: "(best_cal1 \<in> set (seen @ [cal]) \<and> abs_delta clk target best_cal1 = sint min_delta1) \<or>
              (best_cal1 = cal2 \<and> bit1 \<noteq> 0 \<and> sint min_delta1 = 2 ^ 31 - 1)"
    proof (cases better)
      case True
      then show ?thesis by (simp add: best_cal1_def min_delta1_def a)
    next
      case nb: False
      from "1.prems"(3) show ?thesis
      proof
        assume "best_cal \<in> set seen \<and> abs_delta clk target best_cal = sint min_delta"
        with nb show ?thesis by (simp add: best_cal1_def min_delta1_def)
      next
        assume h: "best_cal = cal \<and> bitv \<noteq> 0 \<and> sint min_delta = 2 ^ 31 - 1"
        with nb have "2 ^ 31 - 1 \<le> sint (c_abs delta)"
          by (simp add: better_def)
        with sint_int32_le [of "c_abs delta"] have "sint (c_abs delta) = sint min_delta"
          using h by simp
        with nb h show ?thesis by (simp add: best_cal1_def min_delta1_def a)
      qed
    qed
    from "1.IH" [OF False delta_def better_def min_delta1_def best_cal1_def cal1_def
                   bit1_def cal2_def r i1 i2]
    show ?thesis .
  qed
qed


lemma calibrate_loop_length_start:
  "length (snd (calibrate_loop clk target cal 0x400 min_delta best_cal seen)) = length seen + 11"
  "length (snd (calibrate_loop clk target cal 0x800 min_delta best_cal seen)) = length seen + 12"
  using calibrate_loop_length [of 10 clk target cal min_delta best_cal seen]
        calibrate_loop_length [of 11 clk target cal min_delta best_cal seen]
  by simp_all

lemma calibrate_search_length:
  "length (snd (calibrate_search clk target)) =
     (if clock_type clk = CLOCK_TYPE_BASIC then 11 else 12)"
  by (simp add: calibrate_search_def Let_def calibrate_loop_length_start)

lemma calibrate_search_first:
  "(if clock_type clk = CLOCK_TYPE_BASIC then 0x400 else 0x800)
     \<in> set (snd (calibrate_search clk target))"
  by (simp add: calibrate_search_def Let_def calibrate_loop_first)

lemma calibrate_search_min:
  "fst (calibrate_search clk target) \<in> set (snd (calibrate_search clk target)) \<and>
   (\<forall>c\<in>set (snd (calibrate_search clk target)).
      abs_delta clk target (fst (calibrate_search clk target)) \<le> abs_delta clk target c)"
proof -
  obtain best fin where r: "calibrate_search clk target = (best, fin)"
    by (cases "calibrate_search clk target")
  define cal :: uint16 where
    "cal = push_bit 8 (ucast (if clock_type clk = CLOCK_TYPE_BASIC then 0x4 else 0x8 :: uint8))"
  have nz: "cal \<noteq> 0"
    by (simp add: cal_def)
  have l: "calibrate_loop clk target cal cal 0x7fffffff cal [] = (best, fin)"
    using r by (simp add: calibrate_search_def Let_def cal_def)
  have "best \<in> set fin \<and> (\<forall>c\<in>set fin. abs_delta clk target best \<le> abs_delta clk target c)"
    by (rule calibrate_loop_min [OF l]) (simp_all add: nz)
  with r show ?thesis by simp
qed

text \<open>
  Where the difference of the frequency and the target fits \<open>int32_t\<close>, the error the
  loop compares is the absolute value of that difference.
\<close>

lemma abs_delta_exact:
  assumes "- (2 ^ 31) < sint d - sint t" "sint d - sint t < 2 ^ 31"
  shows "sint (c_abs (d - t :: int32)) = \<bar>sint d - sint t\<bar>"
proof -
  have "d - t = word_of_int (sint d - sint t)"
    by simp
  then have s: "sint (d - t) = sint d - sint t"
    using assms sint_of_int_small [of "sint d - sint t"] by simp
  have "t - d = word_of_int (sint t - sint d)"
    by simp
  then have n: "sint (t - d) = sint t - sint d"
    using assms sint_of_int_small [of "sint t - sint d"] by simp
  show ?thesis
    by (simp add: c_abs_def s n)
qed

text \<open>
  Claim C2, amended. The search is a total function of the device and the target. It
  evaluates exactly 11 candidate words on a Basic device and 12 on a Basic+ device, one
  for each bit of the word made of the range field and the eight bits of tap and
  modulation. The word it selects is one of the candidates evaluated, and its absolute
  error, as the loop computes it, is least among them; \<open>calc_calibrate_dco\<close> returns the
  low byte of that word at an even address and the high byte at an odd one.
\<close>

theorem calibration_search_result:
  "length (snd (calibrate_search clk target)) =
     (if clock_type clk = CLOCK_TYPE_BASIC then 11 else 12) \<and>
   fst (calibrate_search clk target) \<in> set (snd (calibrate_search clk target)) \<and>
   (\<forall>c\<in>set (snd (calibrate_search clk target)).
      abs_delta clk target (fst (calibrate_search clk target)) \<le> abs_delta clk target c) \<and>
   calc_calibrate_dco clk addr target =
     (if addr mod 2 = 0 then ucast (fst (calibrate_search clk target))
      else ucast (drop_bit 8 (fst (calibrate_search clk target))))"
  using calibrate_search_min [of clk target]
  by (simp add: calibrate_search_length calc_calibrate_dco_def Let_def)

theorem calibration_search_result_witness:
  "0x800 \<in> set (snd (calibrate_search (created ''basic+'') 16000000)) \<and>
   length (snd (calibrate_search (created ''basic+'') 16000000)) = 12 \<and>
   fst (calibrate_search (created ''basic+'') 16000000)
     \<in> set (snd (calibrate_search (created ''basic+'') 16000000)) \<and>
   abs_delta (created ''basic+'') 16000000 (fst (calibrate_search (created ''basic+'') 16000000))
     \<le> abs_delta (created ''basic+'') 16000000 0x800"
proof -
  have h: "0x800 \<in> set (snd (calibrate_search (created ''basic+'') 16000000))"
    using calibrate_search_first [of "created ''basic+''" 16000000] by simp
  show ?thesis
    using h calibration_search_result [of "created ''basic+''" 16000000 0] by simp
qed

text \<open>
  On a Basic+ device, the only family that maps the calibration constants, the search
  for 16 MHz takes 12 steps, not 8.
\<close>

theorem calibration_steps_counterexample:
  "length (snd (calibrate_search (created ''basic+'') 16000000)) = 12 \<and>
   length (snd (calibrate_search (created ''basic+'') 16000000)) \<noteq> 8"
  by (simp add: calibrate_search_length)


lemma pow2_powi: "pow2 e = 2 powi e"
  by (simp add: pow2_def power_int_def inverse_eq_divide power_one_over)

lemma pow2_pos [simp]: "0 < pow2 e"
  by (simp add: pow2_powi)

lemma pow2_add: "pow2 (a + b) = pow2 a * pow2 b"
  by (simp add: pow2_powi power_int_add)

lemma pow2_mono: "a \<le> b \<Longrightarrow> pow2 a \<le> pow2 b"
  by (simp add: pow2_powi power_int_increasing)

lemma pow2_of_nat: "pow2 (int n) = 2 ^ n"
  by (simp add: pow2_def)

lemma pow2_exp_unique:
  assumes "pow2 e \<le> y" "y < pow2 (e + 1)" "pow2 e' \<le> y" "y < pow2 (e' + 1)"
  shows "e = e'"
proof (rule ccontr)
  assume "e \<noteq> e'"
  then consider "e + 1 \<le> e'" | "e' + 1 \<le> e" by linarith
  then show False
  proof cases
    case 1
    from pow2_mono [OF 1] assms show False by linarith
  next
    case 2
    from pow2_mono [OF 2] assms show False by linarith
  qed
qed

lemma ilog2_bounds:
  assumes "x \<noteq> 0"
  shows "pow2 (ilog2 x) \<le> \<bar>x\<bar> \<and> \<bar>x\<bar> < pow2 (ilog2 x + 1)"
proof -
  obtain p q where pq: "quotient_of \<bar>x\<bar> = (p, q)"
    by (cases "quotient_of \<bar>x\<bar>")
  have q: "0 < q"
    using pq by (rule quotient_of_denom_pos)
  have x: "\<bar>x\<bar> = of_int p / of_int q"
    using pq by (rule quotient_of_div)
  have "0 < \<bar>x\<bar>"
    using assms by simp
  with x q have p: "0 < p"
    by (simp add: zero_less_divide_iff)
  define bp where "bp = bitlen p"
  define bq where "bq = bitlen q"
  have bp1: "1 \<le> bp" and bq1: "1 \<le> bq"
    using p q by (simp_all add: bp_def bq_def bitlen_alt_def)
  have pb: "2 ^ nat (bp - 1) \<le> p" "p < 2 ^ nat bp"
    using bitlen_bounds [OF p] by (simp_all add: bp_def)
  have qb: "2 ^ nat (bq - 1) \<le> q" "q < 2 ^ nat bq"
    using bitlen_bounds [OF q] by (simp_all add: bq_def)
  have pr: "pow2 (bp - 1) \<le> of_int p" "of_int p < pow2 bp"
  proof -
    have "(of_int (2 ^ nat (bp - 1)) :: rat) \<le> of_int p"
      using pb(1) by (simp only: of_int_le_iff)
    then show "pow2 (bp - 1) \<le> of_int p"
      using bp1 by (simp add: pow2_def)
    have "(of_int p :: rat) < of_int (2 ^ nat bp)"
      using pb(2) by (simp only: of_int_less_iff)
    then show "of_int p < pow2 bp"
      using bp1 by (simp add: pow2_def)
  qed
  have qr: "pow2 (bq - 1) \<le> of_int q" "of_int q < pow2 bq"
  proof -
    have "(of_int (2 ^ nat (bq - 1)) :: rat) \<le> of_int q"
      using qb(1) by (simp only: of_int_le_iff)
    then show "pow2 (bq - 1) \<le> of_int q"
      using bq1 by (simp add: pow2_def)
    have "(of_int q :: rat) < of_int (2 ^ nat bq)"
      using qb(2) by (simp only: of_int_less_iff)
    then show "of_int q < pow2 bq"
      using bq1 by (simp add: pow2_def)
  qed
  have qpos: "(0 :: rat) < of_int q"
    using q by simp
  have up: "\<bar>x\<bar> < pow2 (bp - bq + 1)"
  proof -
    have "of_int p < pow2 bp"
      by (rule pr(2))
    also have "pow2 bp = pow2 (bp - bq + 1) * pow2 (bq - 1)"
      by (simp flip: pow2_add)
    also have "\<dots> \<le> pow2 (bp - bq + 1) * of_int q"
      using qr(1) by (simp add: mult_left_mono less_imp_le)
    finally show ?thesis
      using qpos by (simp add: x pos_divide_less_eq)
  qed
  have lo: "pow2 (bp - bq - 1) < \<bar>x\<bar>"
  proof -
    have "pow2 (bp - bq - 1) * of_int q < pow2 (bp - bq - 1) * pow2 bq"
      using qr(2) by (simp add: mult_strict_left_mono)
    also have "\<dots> = pow2 (bp - 1)"
      by (simp flip: pow2_add)
    also have "\<dots> \<le> of_int p"
      by (rule pr(1))
    finally show ?thesis
      using qpos by (simp add: x pos_less_divide_eq)
  qed
  show ?thesis
  proof (cases "pow2 (bp - bq) \<le> \<bar>x\<bar>")
    case True
    then have "ilog2 x = bp - bq"
      by (simp add: ilog2_def pq Let_def bp_def bq_def)
    with True up show ?thesis by simp
  next
    case False
    then have "ilog2 x = bp - bq - 1"
      by (simp add: ilog2_def pq Let_def bp_def bq_def)
    with False lo show ?thesis by simp
  qed
qed

lemma ilog2_eq:
  assumes "pow2 e \<le> \<bar>x\<bar>" "\<bar>x\<bar> < pow2 (e + 1)"
  shows "ilog2 x = e"
proof -
  have "0 < \<bar>x\<bar>"
    using assms(1) pow2_pos [of e] by linarith
  then have "x \<noteq> 0" by simp
  from ilog2_bounds [OF this] assms show ?thesis
    using pow2_exp_unique [of "ilog2 x" "\<bar>x\<bar>" e] by simp
qed

lemma round_even_near:
  assumes "\<bar>y - of_int m\<bar> < 1 / 2"
  shows "round_even y = m"
proof (cases "of_int m \<le> y")
  case True
  with assms have "y < of_int m + 1"
    by linarith
  with True have f: "\<lfloor>y\<rfloor> = m"
    by (simp add: floor_unique)
  from True assms have "y - of_int m < 1 / 2"
    by linarith
  then show ?thesis
    by (simp add: round_even_def Let_def f)
next
  case False
  with assms have "of_int (m - 1) \<le> y" "y < of_int (m - 1) + 1"
    by simp_all
  then have f: "\<lfloor>y\<rfloor> = m - 1"
    by (rule floor_unique)
  from False assms have "1 / 2 < y - of_int (m - 1)"
    by simp
  then show ?thesis
    by (simp add: round_even_def Let_def f)
qed

text \<open>Evaluating a rounding in the normal range, given the exponent.\<close>

lemma rnd64_eval:
  assumes "pow2 e \<le> \<bar>x\<bar>" "\<bar>x\<bar> < pow2 (e + 1)" "- 1022 \<le> e"
    and "\<bar>x / pow2 (e - 52) - of_int m\<bar> < 1 / 2"
    and "\<bar>of_int m * pow2 (e - 52)\<bar> < pow2 1024"
    and "r = of_int m * pow2 (e - 52)"
  shows "rnd64 x = Finite r"
proof -
  have "0 < \<bar>x\<bar>"
    using assms(1) pow2_pos [of e] by linarith
  then have nz: "x \<noteq> 0" by simp
  have e: "max (ilog2 x) (- 1022) = e"
    using ilog2_eq [OF assms(1,2)] assms(3) by simp
  have m: "round_even (x / pow2 (e - 52)) = m"
    using assms(4) by (rule round_even_near)
  show ?thesis
    using assms(5,6) by (simp add: rnd64_def nz e m Let_def)
qed


lemma sdco_basic: "rnd64 (28 / 25) = Finite (1261007895663739 / 1125899906842624)"
  by (rule rnd64_eval [where e = "0" and m = "5044031582654956"]) (simp_all add: pow2_def)

lemma tapv_basic: "rnd64 (750000) = Finite (750000)"
  by (rule rnd64_eval [where e = "19" and m = "6442450944000000"]) (simp_all add: pow2_def)

lemma next_basic: "rnd64 (750000 * (1261007895663739 / 1125899906842624)) = Finite (7215545057280001 / 8589934592)"
  by (rule rnd64_eval [where e = "19" and m = "7215545057280001"]) (simp_all add: pow2_def)

lemma num1_basic: "rnd64 (32 * 750000) = Finite (24000000)"
  by (rule rnd64_eval [where e = "24" and m = "6442450944000000"]) (simp_all add: pow2_def)

lemma num2_basic: "rnd64 (24000000 * (7215545057280001 / 8589934592)) = Finite (5160960000000001 / 256)"
  by (rule rnd64_eval [where e = "44" and m = "5160960000000001"]) (simp_all add: pow2_def)

lemma den1_basic: "rnd64 (32 * (7215545057280001 / 8589934592)) = Finite (7215545057280001 / 268435456)"
  by (rule rnd64_eval [where e = "24" and m = "7215545057280001"]) (simp_all add: pow2_def)

lemma den2_basic: "rnd64 (0 + (7215545057280001 / 268435456)) = Finite (7215545057280001 / 268435456)"
  by (rule rnd64_eval [where e = "24" and m = "7215545057280001"]) (simp_all add: pow2_def)

lemma quot_basic: "rnd64 ((5160960000000001 / 256) / (7215545057280001 / 268435456)) = Finite (750000)"
  by (rule rnd64_eval [where e = "19" and m = "6442450944000000"]) (simp_all add: pow2_def)

lemma interp_basic:
  "d_to_int32
     (d_div (d_mul (d_mul (Finite 32) (Finite 750000)) (d_mul (Finite 750000) (rnd64 (28 / 25))))
            (d_add (d_mul (Finite 0) (Finite 750000))
                   (d_mul (Finite 32) (d_mul (Finite 750000) (rnd64 (28 / 25)))))) = 750000"
proof -
  have n: "d_mul (Finite 750000) (rnd64 (28 / 25)) = Finite (7215545057280001 / 8589934592)"
    by (simp only: sdco_basic d_mul.simps next_basic)
  have a1: "d_mul (Finite 32) (Finite 750000) = Finite (24000000)"
    by (simp only: d_mul.simps num1_basic)
  have a2: "d_mul (Finite (24000000)) (Finite (7215545057280001 / 8589934592)) = Finite (5160960000000001 / 256)"
    by (simp only: d_mul.simps num2_basic)
  have z: "d_mul (Finite 0) (Finite 750000) = Finite 0"
    by (simp add: rnd64_def)
  have b1: "d_mul (Finite 32) (Finite (7215545057280001 / 8589934592)) = Finite (7215545057280001 / 268435456)"
    by (simp only: d_mul.simps den1_basic)
  have b2: "d_add (Finite 0) (Finite (7215545057280001 / 268435456)) = Finite (7215545057280001 / 268435456)"
    by (simp only: d_add.simps den2_basic)
  have nz: "(7215545057280001 / 268435456 :: rat) \<noteq> 0"
    by simp
  have q: "d_div (Finite (5160960000000001 / 256)) (Finite (7215545057280001 / 268435456)) = Finite (750000)"
    by (simp only: d_div.simps nz if_False quot_basic)
  have "\<lfloor>750000 :: rat\<rfloor> = 750000"
    by (rule floor_unique) simp_all
  then have t: "d_to_int32 (Finite (750000)) = 750000"
    by (simp add: trunc_rat_def)
  show ?thesis
    by (simp only: n a1 a2 z b1 b2 q t)
qed

lemma sdco_plus: "rnd64 (27 / 25) = Finite (607985949695017 / 562949953421312)"
  by (rule rnd64_eval [where e = "0" and m = "4863887597560136"]) (simp_all add: pow2_def)

lemma tapv_plus: "rnd64 (1140000) = Finite (1140000)"
  by (rule rnd64_eval [where e = "20" and m = "4896262717440000"]) (simp_all add: pow2_def)

lemma next_plus: "rnd64 (1140000 * (607985949695017 / 562949953421312)) = Finite (1231200)"
  by (rule rnd64_eval [where e = "20" and m = "5287963734835200"]) (simp_all add: pow2_def)

lemma num1_plus: "rnd64 (32 * 1140000) = Finite (36480000)"
  by (rule rnd64_eval [where e = "25" and m = "4896262717440000"]) (simp_all add: pow2_def)

lemma num2_plus: "rnd64 (36480000 * 1231200) = Finite (44914176000000)"
  by (rule rnd64_eval [where e = "45" and m = "5749014528000000"]) (simp_all add: pow2_def)

lemma den1_plus: "rnd64 (32 * 1231200) = Finite (39398400)"
  by (rule rnd64_eval [where e = "25" and m = "5287963734835200"]) (simp_all add: pow2_def)

lemma den2_plus: "rnd64 (0 + 39398400) = Finite (39398400)"
  by (rule rnd64_eval [where e = "25" and m = "5287963734835200"]) (simp_all add: pow2_def)

lemma quot_plus: "rnd64 (44914176000000 / 39398400) = Finite (1140000)"
  by (rule rnd64_eval [where e = "20" and m = "4896262717440000"]) (simp_all add: pow2_def)

lemma interp_plus:
  "d_to_int32
     (d_div (d_mul (d_mul (Finite 32) (Finite 1140000)) (d_mul (Finite 1140000) (rnd64 (27 / 25))))
            (d_add (d_mul (Finite 0) (Finite 1140000))
                   (d_mul (Finite 32) (d_mul (Finite 1140000) (rnd64 (27 / 25)))))) = 1140000"
proof -
  have n: "d_mul (Finite 1140000) (rnd64 (27 / 25)) = Finite (1231200)"
    by (simp only: sdco_plus d_mul.simps next_plus)
  have a1: "d_mul (Finite 32) (Finite 1140000) = Finite (36480000)"
    by (simp only: d_mul.simps num1_plus)
  have a2: "d_mul (Finite (36480000)) (Finite (1231200)) = Finite (44914176000000)"
    by (simp only: d_mul.simps num2_plus)
  have z: "d_mul (Finite 0) (Finite 1140000) = Finite 0"
    by (simp add: rnd64_def)
  have b1: "d_mul (Finite 32) (Finite (1231200)) = Finite (39398400)"
    by (simp only: d_mul.simps den1_plus)
  have b2: "d_add (Finite 0) (Finite (39398400)) = Finite (39398400)"
    by (simp only: d_add.simps den2_plus)
  have nz: "(39398400 :: rat) \<noteq> 0"
    by simp
  have q: "d_div (Finite (44914176000000)) (Finite (39398400)) = Finite (1140000)"
    by (simp only: d_div.simps nz if_False quot_plus)
  have "\<lfloor>1140000 :: rat\<rfloor> = 1140000"
    by (rule floor_unique) simp_all
  then have t: "d_to_int32 (Finite (1140000)) = 1140000"
    by (simp add: trunc_rat_def)
  show ?thesis
    by (simp only: n a1 a2 z b1 b2 q t)
qed

lemma sdco_b63: "rnd64 (28 / 25) = Finite (1261007895663739 / 1125899906842624)"
  by (rule rnd64_eval [where e = "0" and m = "5044031582654956"]) (simp_all add: pow2_def)

lemma tapv_b63: "rnd64 (63) = Finite (63)"
  by (rule rnd64_eval [where e = "5" and m = "8866461766385664"]) (simp_all add: pow2_def)

lemma next_b63: "rnd64 (63 * (1261007895663739 / 1125899906842624)) = Finite (1241304647293993 / 17592186044416)"
  by (rule rnd64_eval [where e = "6" and m = "4965218589175972"]) (simp_all add: pow2_def)

lemma num1_b63: "rnd64 (32 * 63) = Finite (2016)"
  by (rule rnd64_eval [where e = "10" and m = "8866461766385664"]) (simp_all add: pow2_def)

lemma num2_b63: "rnd64 (2016 * (1241304647293993 / 17592186044416)) = Finite (4887637048720097 / 34359738368)"
  by (rule rnd64_eval [where e = "17" and m = "4887637048720097"]) (simp_all add: pow2_def)

lemma den1_b63: "rnd64 (32 * (1241304647293993 / 17592186044416)) = Finite (1241304647293993 / 549755813888)"
  by (rule rnd64_eval [where e = "11" and m = "4965218589175972"]) (simp_all add: pow2_def)

lemma den2_b63: "rnd64 (0 + (1241304647293993 / 549755813888)) = Finite (1241304647293993 / 549755813888)"
  by (rule rnd64_eval [where e = "11" and m = "4965218589175972"]) (simp_all add: pow2_def)

lemma quot_b63: "rnd64 ((4887637048720097 / 34359738368) / (1241304647293993 / 549755813888)) = Finite (8866461766385663 / 140737488355328)"
  by (rule rnd64_eval [where e = "5" and m = "8866461766385663"]) (simp_all add: pow2_def)

lemma interp_b63:
  "d_to_int32
     (d_div (d_mul (d_mul (Finite 32) (Finite 63)) (d_mul (Finite 63) (rnd64 (28 / 25))))
            (d_add (d_mul (Finite 0) (Finite 63))
                   (d_mul (Finite 32) (d_mul (Finite 63) (rnd64 (28 / 25)))))) = 62"
proof -
  have n: "d_mul (Finite 63) (rnd64 (28 / 25)) = Finite (1241304647293993 / 17592186044416)"
    by (simp only: sdco_b63 d_mul.simps next_b63)
  have a1: "d_mul (Finite 32) (Finite 63) = Finite (2016)"
    by (simp only: d_mul.simps num1_b63)
  have a2: "d_mul (Finite (2016)) (Finite (1241304647293993 / 17592186044416)) = Finite (4887637048720097 / 34359738368)"
    by (simp only: d_mul.simps num2_b63)
  have z: "d_mul (Finite 0) (Finite 63) = Finite 0"
    by (simp add: rnd64_def)
  have b1: "d_mul (Finite 32) (Finite (1241304647293993 / 17592186044416)) = Finite (1241304647293993 / 549755813888)"
    by (simp only: d_mul.simps den1_b63)
  have b2: "d_add (Finite 0) (Finite (1241304647293993 / 549755813888)) = Finite (1241304647293993 / 549755813888)"
    by (simp only: d_add.simps den2_b63)
  have nz: "(1241304647293993 / 549755813888 :: rat) \<noteq> 0"
    by simp
  have q: "d_div (Finite (4887637048720097 / 34359738368)) (Finite (1241304647293993 / 549755813888)) = Finite (8866461766385663 / 140737488355328)"
    by (simp only: d_div.simps nz if_False quot_b63)
  have "\<lfloor>8866461766385663 / 140737488355328 :: rat\<rfloor> = 62"
    by (rule floor_unique) simp_all
  then have t: "d_to_int32 (Finite (8866461766385663 / 140737488355328)) = 62"
    by (simp add: trunc_rat_def)
  show ?thesis
    by (simp only: n a1 a2 z b1 b2 q t)
qed


lemma calc_dcoclk_mod0:
  "dcoctl_v AND 0x1f = 0 \<Longrightarrow>
     calc_dcoclk clk dcoctl_v bcsctl1_v =
       d_to_int32
         (d_div (d_mul (d_mul (Finite 32) (tap_dcoclk clk dcoctl_v bcsctl1_v))
                       (d_mul (tap_dcoclk clk dcoctl_v bcsctl1_v) (sdco clk)))
                (d_add (d_mul (Finite 0) (tap_dcoclk clk dcoctl_v bcsctl1_v))
                       (d_mul (Finite 32) (d_mul (tap_dcoclk clk dcoctl_v bcsctl1_v) (sdco clk)))))"
  by (simp add: calc_dcoclk_def Let_def d_of_int_def)

text \<open>At tap 3 and the reference range both powers are \<open>pow(x, 0)\<close>.\<close>

lemma tap_dcoclk_reference:
  "clock_type clk = CLOCK_TYPE_BASIC \<Longrightarrow>
     tap_dcoclk clk 0x60 0x84 =
       d_mul (d_mul (Finite (of_int (sint (dco4_3_hz clk)))) (Finite 1)) (Finite 1)"
  "clock_type clk = CLOCK_TYPE_BASIC_PLUS \<Longrightarrow>
     tap_dcoclk clk 0x60 0x87 =
       d_mul (d_mul (Finite (of_int (sint (dco7_3_hz clk)))) (Finite 1)) (Finite 1)"
  by (simp_all add: tap_dcoclk_def Let_def d_of_int_def del: d_mul.simps)

lemma created_basic_fields:
  "dco4_3_hz (created ''basic'') = 750000"
  "sdco (created ''basic'') = rnd64 (28 / 25)"
  "dcoctl (created ''basic'') = 0x60"
  "bcsctl1 (created ''basic'') = 0x84"
  by (simp_all add: created_def create_basic clock_reset_def zero_clock_def Let_def)

lemma created_plus_fields:
  "dco7_3_hz (created ''basic+'') = 1140000"
  "sdco (created ''basic+'') = rnd64 (27 / 25)"
  "dcoctl (created ''basic+'') = 0x60"
  "bcsctl1 (created ''basic+'') = 0x87"
  by (simp_all add: created_def create_basic_plus clock_reset_def zero_clock_def Let_def)

lemma tap_created_basic: "tap_dcoclk (created ''basic'') 0x60 0x84 = Finite 750000"
  by (simp add: tap_dcoclk_reference created_basic_fields tapv_basic)

lemma tap_created_plus: "tap_dcoclk (created ''basic+'') 0x60 0x87 = Finite 1140000"
  by (simp add: tap_dcoclk_reference created_plus_fields tapv_plus)

lemma calc_created_basic: "calc_dcoclk (created ''basic'') 0x60 0x84 = 750000"
  by (simp only: calc_dcoclk_mod0 [of "0x60", simplified] tap_created_basic
        created_basic_fields interp_basic)

lemma calc_created_plus: "calc_dcoclk (created ''basic+'') 0x60 0x87 = 1140000"
  by (simp only: calc_dcoclk_mod0 [of "0x60", simplified] tap_created_plus
        created_plus_fields interp_plus)

lemma dco_hz_update:
  "dco_hz (update_clock_frequencies c) = calc_dcoclk c (dcoctl c) (bcsctl1 c)"
  by (simp add: update_clock_frequencies_def Let_def)

lemma calc_dcoclk_cong:
  "clock_type a = clock_type b \<Longrightarrow> dco4_3_hz a = dco4_3_hz b \<Longrightarrow>
   dco7_3_hz a = dco7_3_hz b \<Longrightarrow> srsel a = srsel b \<Longrightarrow> sdco a = sdco b \<Longrightarrow>
   calc_dcoclk a d r = calc_dcoclk b d r"
  by (simp add: calc_dcoclk_def tap_dcoclk_def)


lemma dco_hz_update_self:
  "dco_hz (update_clock_frequencies c) =
     calc_dcoclk (update_clock_frequencies c) (dcoctl (update_clock_frequencies c))
       (bcsctl1 (update_clock_frequencies c))"
  by (simp add: dco_hz_update calc_dcoclk_cong [of "update_clock_frequencies c" c])

lemma dco_hz_reset:
  "dco_hz (clock_reset c) =
     calc_dcoclk (clock_reset c) (dcoctl (clock_reset c)) (bcsctl1 (clock_reset c))"
  by (simp add: clock_reset_def Let_def dco_hz_update_self)

lemma dco_hz_created_basic: "dco_hz (created ''basic'') = 750000"
  using dco_hz_reset [of "projr (clock_create ''basic'')"]
  by (simp add: created_def [symmetric] created_basic_fields calc_created_basic)

lemma dco_hz_created_plus: "dco_hz (created ''basic+'') = 1140000"
  using dco_hz_reset [of "projr (clock_create ''basic+'')"]
  by (simp add: created_def [symmetric] created_plus_fields calc_created_plus)

lemma get_arg_63: "get_arg ''63'' = (Some ''63'', [])"
  by (simp add: get_arg_def c_isspace_def)

lemma config_dco4_3_63:
  "dev (clock_config (created ''basic'') ''dco4_3'' ''63'' 0) =
     update_clock_frequencies ((created ''basic'')\<lparr>dco4_3_hz := 63\<rparr>)"
  by (simp add: clock_config_def config_frequency_def get_arg_63 strcaseeq_def
        c_tolower_def c_isupper_def c_isdigit_def multiply_power_of_10_def Let_def)

lemma tap_63:
  "tap_dcoclk (dev (clock_config (created ''basic'') ''dco4_3'' ''63'' 0)) 0x60 0x84 = Finite 63"
  by (simp add: config_dco4_3_63 tap_dcoclk_reference tapv_b63)

lemma sdco_63:
  "sdco (dev (clock_config (created ''basic'') ''dco4_3'' ''63'' 0)) = rnd64 (28 / 25)"
  by (simp add: config_dco4_3_63 created_basic_fields)

lemma calc_63:
  "calc_dcoclk (dev (clock_config (created ''basic'') ''dco4_3'' ''63'' 0)) 0x60 0x84 = 62"
  by (simp only: calc_dcoclk_mod0 [of "0x60", simplified] tap_63 sdco_63 interp_b63)


lemma round_even_bound: "\<bar>of_int (round_even y) - y\<bar> \<le> 1 / 2"
proof -
  define f where "f = \<lfloor>y\<rfloor>"
  define d where "d = y - of_int f"
  have d: "0 \<le> d" "d < 1"
    unfolding d_def f_def by linarith+
  have y: "y = of_int f + d"
    by (simp add: d_def)
  have re: "round_even y =
              (if d < 1 / 2 then f else if 1 / 2 < d then f + 1 else if even f then f else f + 1)"
    by (simp add: round_even_def Let_def f_def d_def)
  consider "d < 1 / 2" | "1 / 2 < d" | "d = 1 / 2" by linarith
  then show ?thesis
  proof cases
    case 1
    then have "round_even y = f"
      by (simp only: re if_True)
    with 1 d show ?thesis by (simp add: y)
  next
    case 2
    then have "round_even y = f + 1"
      by (simp only: re) simp
    with 2 d show ?thesis by (simp add: y)
  next
    case 3
    then have "round_even y = f \<or> round_even y = f + 1"
      by (simp only: re) simp
    with 3 show ?thesis by (auto simp: y)
  qed
qed

text \<open>
  A rounding in the normal range has a relative error of at most 2^-53.
\<close>

lemma rnd64_rel:
  assumes "pow2 (- 1022) \<le> z" "z < pow2 1023"
  shows "\<exists>r. rnd64 z = Finite r \<and> z * (1 - pow2 (- 53)) \<le> r \<and> r \<le> z * (1 + pow2 (- 53))"
proof -
  have zpos: "0 < z"
    using assms(1) pow2_pos [of "- 1022"] by linarith
  then have nz: "z \<noteq> 0" and az: "\<bar>z\<bar> = z"
    by simp_all
  define e where "e = ilog2 z"
  have eb: "pow2 e \<le> z" "z < pow2 (e + 1)"
    using ilog2_bounds [OF nz] by (simp_all add: e_def az)
  have elo: "- 1022 \<le> e"
  proof (rule ccontr)
    assume "\<not> - 1022 \<le> e"
    then have "e + 1 \<le> - 1022" by simp
    from pow2_mono [OF this] eb(2) assms(1) show False by linarith
  qed
  have ehi: "e \<le> 1022"
  proof (rule ccontr)
    assume "\<not> e \<le> 1022"
    then have "1023 \<le> e" by simp
    from pow2_mono [OF this] eb(1) assms(2) show False by linarith
  qed
  define ulp where "ulp = pow2 (e - 52)"
  have ulp: "0 < ulp"
    by (simp add: ulp_def)
  define m where "m = round_even (z / ulp)"
  define r where "r = of_int m * ulp"
  have "\<bar>of_int m - z / ulp\<bar> \<le> 1 / 2"
    unfolding m_def by (rule round_even_bound)
  then have "\<bar>of_int m - z / ulp\<bar> * ulp \<le> 1 / 2 * ulp"
    using ulp by (simp add: mult_right_mono)
  moreover have "\<bar>of_int m - z / ulp\<bar> * ulp = \<bar>r - z\<bar>"
    using ulp by (simp add: r_def abs_mult [symmetric] left_diff_distrib abs_mult_pos)
  ultimately have err: "\<bar>r - z\<bar> \<le> 1 / 2 * ulp"
    by simp
  have half: "1 / 2 * ulp = pow2 e * pow2 (- 53)"
  proof -
    have "pow2 e * pow2 (- 53) = pow2 (e - 53)"
      by (simp flip: pow2_add)
    moreover have "pow2 (e - 52) = pow2 (e - 53) * pow2 1"
      by (simp flip: pow2_add)
    ultimately show ?thesis
      by (simp add: ulp_def pow2_def [of 1])
  qed
  have "pow2 e * pow2 (- 53) \<le> z * pow2 (- 53)"
    using eb(1) by (simp add: mult_right_mono less_imp_le)
  with err half have rel: "\<bar>r - z\<bar> \<le> z * pow2 (- 53)"
    by linarith
  then have lo: "z * (1 - pow2 (- 53)) \<le> r" and hi: "r \<le> z * (1 + pow2 (- 53))"
    by (simp_all add: algebra_simps abs_le_iff)
  have u1: "pow2 (- 53) < 1"
    by (simp add: pow2_def)
  have "0 < z * (1 - pow2 (- 53))"
    using zpos u1 by simp
  with lo have rpos: "0 < r"
    by linarith
  have u0: "0 < pow2 (- 53)"
    by simp
  have "z * (1 + pow2 (- 53)) < pow2 1023 * 2"
    using assms(2) zpos u1 u0 by (intro mult_strict_mono) linarith+
  also have "pow2 1023 * 2 = pow2 1024"
    by (simp add: pow2_def)
  finally have "r < pow2 1024"
    using hi by linarith
  with rpos have ov: "\<not> pow2 1024 \<le> \<bar>r\<bar>"
    by simp
  have "rnd64 z = Finite r"
    using ov elo
    by (simp add: rnd64_def nz e_def [symmetric] Let_def ulp_def [symmetric]
          m_def [symmetric] r_def [symmetric] max_def)
  with lo hi show ?thesis
    by blast
qed


lemma rnd64_rel_range:
  assumes "1 / 2 ^ 40 \<le> z" "z \<le> 2 ^ 80"
  obtains r where "rnd64 z = Finite r"
    "z * (1 - pow2 (- 53)) \<le> r" "r \<le> z * (1 + pow2 (- 53))"
proof -
  have "pow2 (- 1022) \<le> 1 / 2 ^ 40"
    using pow2_mono [of "- 1022" "- 40"] by (simp add: pow2_def [of "- 40"])
  with assms(1) have lo: "pow2 (- 1022) \<le> z"
    by linarith
  have "(2 :: rat) ^ 80 < pow2 1023"
    using pow2_mono [of 81 1023] by (simp add: pow2_def [of 81])
  with assms(2) have hi: "z < pow2 1023"
    by linarith
  from rnd64_rel [OF lo hi] that show ?thesis
    by blast
qed

lemma scale_bounds:
  fixes z c :: rat
  assumes "l \<le> z" "z \<le> h" "0 \<le> l" and "cl \<le> c" "c \<le> ch" "0 \<le> cl"
  shows "l * cl \<le> z * c" "z * c \<le> h * ch"
  using assms by (auto intro!: mult_mono)

text \<open>
  The interpolation formula with modulation 0, on a tap frequency \<open>x\<close> and a tap step
  \<open>t\<close>: five roundings separate the result from \<open>x\<close>.
\<close>

lemma interp_mod0_bound:
  assumes x: "1 \<le> x" "x \<le> 2 ^ 30" and t: "1 \<le> t" "t \<le> 2"
  shows "\<exists>q. d_div (d_mul (d_mul (Finite 32) (Finite x)) (d_mul (Finite x) (Finite t)))
                   (d_add (d_mul (Finite 0) (Finite x))
                          (d_mul (Finite 32) (d_mul (Finite x) (Finite t)))) = Finite q \<and>
             x - 1 < q \<and> q < x + 1"
proof -
  define lo where "lo = 1 - pow2 (- 53)"
  define hi where "hi = 1 + pow2 (- 53)"
  have lohi: "1 / 2 \<le> lo" "lo \<le> 1" "1 \<le> hi" "hi \<le> 2" "0 < lo" "0 < hi"
    by (simp_all add: lo_def hi_def pow2_def)
  have K: "2 ^ 30 * (hi * hi / (lo * lo) * hi - 1) < 1"
    by (simp add: lo_def hi_def pow2_def)
  have L: "2 ^ 30 * (1 - lo * lo / (hi * hi) * lo) < 1"
    by (simp add: lo_def hi_def pow2_def)
  have K0: "0 \<le> hi * hi / (lo * lo) * hi - 1"
    by (simp add: lo_def hi_def pow2_def)
  have L0: "0 \<le> 1 - lo * lo / (hi * hi) * lo"
    by (simp add: lo_def hi_def pow2_def)
  have x30: "x \<le> 1073741824"
    using x(2) by simp
  have xpos: "0 < x" and tpos: "0 < t"
    using x t by linarith+
  \<comment> \<open>the next tap\<close>
  have xt: "1 \<le> x * t" "x * t \<le> 2147483648"
    using scale_bounds [of 1 x 1073741824 1 t 2] x30 x(1) t by simp_all
  then have "1 / 2 ^ 40 \<le> x * t" "x * t \<le> 2 ^ 80"
    by simp_all
  then obtain n where n: "rnd64 (x * t) = Finite n" "x * t * lo \<le> n" "n \<le> x * t * hi"
    unfolding lo_def hi_def by (rule rnd64_rel_range)
  have nb: "1 / 2 \<le> n" "n \<le> 4294967296"
    using scale_bounds [of 1 "x * t" 2147483648 "1 / 2" lo 1]
          scale_bounds [of 1 "x * t" 2147483648 1 hi 2] xt lohi n(2,3)
    by linarith+
  then have npos: "0 < n" by linarith
  \<comment> \<open>the numerator\<close>
  have "1 / 2 ^ 40 \<le> 32 * x" "32 * x \<le> 2 ^ 80"
    using x by simp_all
  then obtain a where a: "rnd64 (32 * x) = Finite a" "32 * x * lo \<le> a" "a \<le> 32 * x * hi"
    unfolding lo_def hi_def by (rule rnd64_rel_range)
  have x32: "32 \<le> 32 * x" "32 * x \<le> 34359738368"
    using x(1) x30 by linarith+
  have ab: "16 \<le> a" "a \<le> 68719476736"
    using scale_bounds [of 32 "32 * x" 34359738368 "1 / 2" lo 1]
          scale_bounds [of 32 "32 * x" 34359738368 1 hi 2] x32 lohi a(2,3)
    by linarith+
  then have apos: "0 < a" by linarith
  have an: "8 \<le> a * n" "a * n \<le> 295147905179352825856"
    using scale_bounds [of 16 a 68719476736 "1 / 2" n 4294967296] ab nb
    by linarith+
  then have "1 / 2 ^ 40 \<le> a * n" "a * n \<le> 2 ^ 80"
    by simp_all
  then obtain p where p: "rnd64 (a * n) = Finite p" "a * n * lo \<le> p" "p \<le> a * n * hi"
    unfolding lo_def hi_def by (rule rnd64_rel_range)
  have pb: "4 \<le> p" "p \<le> 590295810358705651712"
    using scale_bounds [of 8 "a * n" 295147905179352825856 "1 / 2" lo 1]
          scale_bounds [of 8 "a * n" 295147905179352825856 1 hi 2] an lohi p(2,3)
    by linarith+
  \<comment> \<open>the denominator\<close>
  have n32: "16 \<le> 32 * n" "32 * n \<le> 137438953472"
    using nb by linarith+
  then have "1 / 2 ^ 40 \<le> 32 * n" "32 * n \<le> 2 ^ 80"
    by simp_all
  then obtain m where m: "rnd64 (32 * n) = Finite m" "32 * n * lo \<le> m" "m \<le> 32 * n * hi"
    unfolding lo_def hi_def by (rule rnd64_rel_range)
  have mb: "8 \<le> m" "m \<le> 274877906944"
    using scale_bounds [of 16 "32 * n" 137438953472 "1 / 2" lo 1]
          scale_bounds [of 16 "32 * n" 137438953472 1 hi 2] n32 lohi m(2,3)
    by linarith+
  then have "1 / 2 ^ 40 \<le> m" "m \<le> 2 ^ 80"
    by simp_all
  then obtain d where d: "rnd64 m = Finite d" "m * lo \<le> d" "d \<le> m * hi"
    unfolding lo_def hi_def by (rule rnd64_rel_range)
  have db: "4 \<le> d" "d \<le> 549755813888"
    using scale_bounds [of 8 m 274877906944 "1 / 2" lo 1]
          scale_bounds [of 8 m 274877906944 1 hi 2] mb lohi d(2,3)
    by linarith+
  then have dpos: "0 < d" by linarith
  \<comment> \<open>the quotient\<close>
  have pd: "1 / 2 ^ 40 \<le> p / d" "p / d \<le> 2 ^ 80"
  proof -
    have "4 / 549755813888 \<le> p / d"
      using pb db by (intro frac_le) simp_all
    moreover have "(1 :: rat) / 2 ^ 40 \<le> 4 / 549755813888"
      by simp
    ultimately show "1 / 2 ^ 40 \<le> p / d" by linarith
    have "p / d \<le> 590295810358705651712 / 4"
      using pb db by (intro frac_le) simp_all
    moreover have "(590295810358705651712 :: rat) / 4 \<le> 2 ^ 80"
      by simp
    ultimately show "p / d \<le> 2 ^ 80" by linarith
  qed
  then obtain q where q: "rnd64 (p / d) = Finite q" "p / d * lo \<le> q" "q \<le> p / d * hi"
    unfolding lo_def hi_def by (rule rnd64_rel_range)
  have val: "d_div (d_mul (d_mul (Finite 32) (Finite x)) (d_mul (Finite x) (Finite t)))
                   (d_add (d_mul (Finite 0) (Finite x))
                          (d_mul (Finite 32) (d_mul (Finite x) (Finite t)))) = Finite q"
    using dpos by (simp add: n a p m d q rnd64_def [of 0])
  \<comment> \<open>the upper bound\<close>
  have up: "q < x + 1"
  proof -
    have "p \<le> a * n * hi" by (rule p(3))
    also have "\<dots> \<le> (32 * x * hi) * n * hi"
      using a(3) npos lohi by (simp add: mult_right_mono)
    finally have p_up: "p \<le> 32 * x * hi * n * hi" .
    have "32 * n * lo * lo \<le> m * lo"
      using m(2) lohi by (simp add: mult_right_mono)
    with d(2) have d_lo: "32 * n * lo * lo \<le> d" by linarith
    have d_lo_pos: "0 < 32 * n * lo * lo"
      using npos lohi by simp
    have "p / d \<le> (32 * x * hi * n * hi) / (32 * n * lo * lo)"
      using p_up d_lo d_lo_pos xpos npos lohi by (intro frac_le) simp_all
    also have "\<dots> = x * (hi * hi / (lo * lo))"
      using npos lohi by (simp add: field_simps)
    finally have pd_up: "p / d \<le> x * (hi * hi / (lo * lo))" .
    have hi0: "0 \<le> hi"
      using lohi by linarith
    have "p / d * hi \<le> x * (hi * hi / (lo * lo)) * hi"
      by (rule mult_right_mono [OF pd_up hi0])
    with q(3) have "q \<le> x * (hi * hi / (lo * lo)) * hi"
      by linarith
    also have "\<dots> = x * (hi * hi / (lo * lo) * hi)"
      by (simp only: mult.assoc)
    finally have "q \<le> x * (hi * hi / (lo * lo) * hi)" .
    also have "\<dots> = x + x * (hi * hi / (lo * lo) * hi - 1)"
      by (simp add: algebra_simps)
    also have "x * (hi * hi / (lo * lo) * hi - 1) \<le> 2 ^ 30 * (hi * hi / (lo * lo) * hi - 1)"
      by (rule mult_right_mono [OF x(2) K0])
    finally show ?thesis
      using K by linarith
  qed
  \<comment> \<open>the lower bound\<close>
  have low: "x - 1 < q"
  proof -
    have lo0: "0 \<le> lo"
      using lohi by linarith
    have "(32 * x * lo) * n * lo \<le> a * n * lo"
      using a(2) npos lohi by (simp add: mult_right_mono)
    with p(2) have p_lo: "32 * x * lo * n * lo \<le> p" by linarith
    have "m * hi \<le> 32 * n * hi * hi"
      using m(3) lohi by (simp add: mult_right_mono)
    with d(3) have d_up: "d \<le> 32 * n * hi * hi" by linarith
    have "0 \<le> 32 * x * lo * n * lo"
      using xpos npos lo0 by simp
    with p_lo have p0: "0 \<le> p" by linarith
    have "(32 * x * lo * n * lo) / (32 * n * hi * hi) \<le> p / d"
      using p_lo d_up dpos p0 by (intro frac_le) simp_all
    moreover have "(32 * x * lo * n * lo) / (32 * n * hi * hi) = x * (lo * lo / (hi * hi))"
      using npos lohi by (simp add: field_simps)
    ultimately have pd_lo: "x * (lo * lo / (hi * hi)) \<le> p / d"
      by simp
    have "x * (lo * lo / (hi * hi)) * lo \<le> p / d * lo"
      by (rule mult_right_mono [OF pd_lo lo0])
    with q(2) have "x * (lo * lo / (hi * hi)) * lo \<le> q"
      by linarith
    then have "x * (lo * lo / (hi * hi) * lo) \<le> q"
      by (simp only: mult.assoc)
    moreover have "x * (lo * lo / (hi * hi) * lo) = x - x * (1 - lo * lo / (hi * hi) * lo)"
      by (simp add: algebra_simps)
    moreover have "x * (1 - lo * lo / (hi * hi) * lo) \<le> 2 ^ 30 * (1 - lo * lo / (hi * hi) * lo)"
      by (rule mult_right_mono [OF x(2) L0])
    ultimately show ?thesis
      using L by linarith
  qed
  from val low up show ?thesis
    by blast
qed


lemma trunc_near:
  fixes q x :: rat
  assumes "x - 1 < q" "q < x + 1" "1 \<le> x" "x \<le> 2 ^ 30"
  shows "x - 2 < of_int (sint (d_to_int32 (Finite q)))"
    and "of_int (sint (d_to_int32 (Finite q))) < x + 1"
proof -
  have q0: "0 \<le> q"
    using assms by linarith
  then have f0: "0 \<le> \<lfloor>q\<rfloor>"
    by simp
  have "q < 1073741825"
    using assms by simp
  then have "\<lfloor>q\<rfloor> < 1073741825"
    by (simp add: floor_less_iff)
  then have f31: "\<lfloor>q\<rfloor> < 2 ^ 31"
    by simp
  from f0 have "- (2 ^ 31) \<le> \<lfloor>q\<rfloor>"
    by simp
  then have s: "sint (word_of_int \<lfloor>q\<rfloor> :: int32) = \<lfloor>q\<rfloor>"
    using f31 by (rule sint_of_int_small)
  have v: "sint (d_to_int32 (Finite q)) = \<lfloor>q\<rfloor>"
    using q0 f0 f31 s by (simp add: trunc_rat_def Let_def)
  have fl: "of_int \<lfloor>q\<rfloor> \<le> q" "q < of_int \<lfloor>q\<rfloor> + 1"
    by linarith+
  show "x - 2 < of_int (sint (d_to_int32 (Finite q)))"
    unfolding v using fl assms(1) by linarith
  show "of_int (sint (d_to_int32 (Finite q))) < x + 1"
    unfolding v using fl assms(2) by linarith
qed

lemma calc_dcoclk_mod0_bound:
  assumes "dcoctl_v AND 0x1f = 0"
    and "tap_dcoclk clk dcoctl_v bcsctl1_v = Finite x" "1 \<le> x" "x \<le> 2 ^ 30"
    and "sdco clk = Finite t" "1 \<le> t" "t \<le> 2"
  shows "x - 2 < of_int (sint (calc_dcoclk clk dcoctl_v bcsctl1_v))"
    and "of_int (sint (calc_dcoclk clk dcoctl_v bcsctl1_v)) < x + 1"
proof -
  from interp_mod0_bound [OF assms(3,4,6,7)] obtain q
    where q: "d_div (d_mul (d_mul (Finite 32) (Finite x)) (d_mul (Finite x) (Finite t)))
                    (d_add (d_mul (Finite 0) (Finite x))
                           (d_mul (Finite 32) (d_mul (Finite x) (Finite t)))) = Finite q"
      and b: "x - 1 < q" "q < x + 1"
    by blast
  have c: "calc_dcoclk clk dcoctl_v bcsctl1_v = d_to_int32 (Finite q)"
    by (simp only: calc_dcoclk_mod0 [OF assms(1)] assms(2,5) q)
  show "x - 2 < of_int (sint (calc_dcoclk clk dcoctl_v bcsctl1_v))"
    unfolding c using b assms(3,4) by (rule trunc_near(1))
  show "of_int (sint (calc_dcoclk clk dcoctl_v bcsctl1_v)) < x + 1"
    unfolding c using b assms(3,4) by (rule trunc_near(2))
qed

text \<open>
  Claim C5, amended. With modulation 0, a tap frequency \<open>f_tap\<close> between 1 Hz and
  \<open>2\<^sup>3\<^sup>0\<close> Hz and a tap step between 1 and 2, the frequency model returns an integer
  above \<open>f_tap - 2\<close> and below \<open>f_tap + 1\<close>: when \<open>f_tap\<close> is an integer, \<open>f_tap\<close> itself
  or \<open>f_tap - 1\<close>. On a freshly created device in its reset state (tap 3, modulation 0,
  the reference range: 4 for Basic, 7 for Basic+) the tap frequency is the configured
  baseline, the model returns the baseline exactly (750000 Hz for Basic, 1140000 Hz
  for Basic+), and this is the oscillator output stored by reset.
\<close>

theorem dco_modulation_zero:
  "(dcoctl_v AND 0x1f = 0 \<and> tap_dcoclk clk dcoctl_v bcsctl1_v = Finite f_tap \<and>
    1 \<le> f_tap \<and> f_tap \<le> 2 ^ 30 \<and> sdco clk = Finite t \<and> 1 \<le> t \<and> t \<le> 2 \<longrightarrow>
      f_tap - 2 < of_int (sint (calc_dcoclk clk dcoctl_v bcsctl1_v)) \<and>
      of_int (sint (calc_dcoclk clk dcoctl_v bcsctl1_v)) < f_tap + 1) \<and>
   dco4_3_hz (created ''basic'') = 750000 \<and>
   tap_dcoclk (created ''basic'') 0x60 0x84 = Finite 750000 \<and>
   calc_dcoclk (created ''basic'') 0x60 0x84 = 750000 \<and>
   dco_hz (created ''basic'') = 750000 \<and>
   dco7_3_hz (created ''basic+'') = 1140000 \<and>
   tap_dcoclk (created ''basic+'') 0x60 0x87 = Finite 1140000 \<and>
   calc_dcoclk (created ''basic+'') 0x60 0x87 = 1140000 \<and>
   dco_hz (created ''basic+'') = 1140000"
proof -
  have "dcoctl_v AND 0x1f = 0 \<and> tap_dcoclk clk dcoctl_v bcsctl1_v = Finite f_tap \<and>
    1 \<le> f_tap \<and> f_tap \<le> 2 ^ 30 \<and> sdco clk = Finite t \<and> 1 \<le> t \<and> t \<le> 2 \<longrightarrow>
      f_tap - 2 < of_int (sint (calc_dcoclk clk dcoctl_v bcsctl1_v)) \<and>
      of_int (sint (calc_dcoclk clk dcoctl_v bcsctl1_v)) < f_tap + 1"
    using calc_dcoclk_mod0_bound [of dcoctl_v clk bcsctl1_v f_tap t] by blast
  then show ?thesis
    by (simp only: created_basic_fields created_plus_fields tap_created_basic tap_created_plus
          calc_created_basic calc_created_plus dco_hz_created_basic dco_hz_created_plus
          simp_thms)
qed

text \<open>
  The bound at the baseline 63 Hz, where the tap frequency is 63 and the tap step is
  the double nearest to 1.12.
\<close>

theorem dco_modulation_zero_witness:
  "(0x60 :: uint8) AND 0x1f = 0 \<and>
   tap_dcoclk (dev (clock_config (created ''basic'') ''dco4_3'' ''63'' 0)) 0x60 0x84 = Finite 63 \<and>
   sdco (dev (clock_config (created ''basic'') ''dco4_3'' ''63'' 0)) =
     Finite (1261007895663739 / 1125899906842624) \<and>
   (1 :: rat) \<le> 1261007895663739 / 1125899906842624 \<and>
   (1261007895663739 / 1125899906842624 :: rat) \<le> 2 \<and>
   (61 :: rat) <
     of_int (sint (calc_dcoclk (dev (clock_config (created ''basic'') ''dco4_3'' ''63'' 0)) 0x60 0x84)) \<and>
   of_int (sint (calc_dcoclk (dev (clock_config (created ''basic'') ''dco4_3'' ''63'' 0)) 0x60 0x84)) <
     (64 :: rat)"
  using dco_modulation_zero [of "0x60" "dev (clock_config (created ''basic'') ''dco4_3'' ''63'' 0)"
      "0x84" 63 "1261007895663739 / 1125899906842624"]
  by (simp add: tap_63 sdco_63 sdco_basic)

text \<open>
  With the baseline configured as 63 Hz, tap 3, modulation 0 and range 4 have the tap
  frequency 63 exactly, and the model returns 62: the quotient of the two rounded
  products is the double just below 63, which the cast truncates.
\<close>

theorem dco_modulation_zero_counterexample:
  "dco4_3_hz (dev (clock_config (created ''basic'') ''dco4_3'' ''63'' 0)) = 63 \<and>
   dcoctl (dev (clock_config (created ''basic'') ''dco4_3'' ''63'' 0)) = 0x60 \<and>
   bcsctl1 (dev (clock_config (created ''basic'') ''dco4_3'' ''63'' 0)) = 0x84 \<and>
   tap_dcoclk (dev (clock_config (created ''basic'') ''dco4_3'' ''63'' 0)) 0x60 0x84 = Finite 63 \<and>
   calc_dcoclk (dev (clock_config (created ''basic'') ''dco4_3'' ''63'' 0)) 0x60 0x84 = 62 \<and>
   dco_hz (dev (clock_config (created ''basic'') ''dco4_3'' ''63'' 0)) = 62"
proof -
  let ?D = "dev (clock_config (created ''basic'') ''dco4_3'' ''63'' 0)"
  have f: "dco4_3_hz ?D = 63" "dcoctl ?D = 0x60" "bcsctl1 ?D = 0x84"
    by (simp_all add: config_dco4_3_63 created_basic_fields)
  have "dco_hz ?D = calc_dcoclk ?D (dcoctl ?D) (bcsctl1 ?D)"
    unfolding config_dco4_3_63 by (rule dco_hz_update_self)
  then have "dco_hz ?D = 62"
    by (simp only: f calc_63)
  with f tap_63 calc_63 show ?thesis
    by simp
qed


lemma rnd64_one: "rnd64 (1) = Finite (1)"
  by (rule rnd64_eval [where e = "0" and m = "4503599627370496"]) (simp_all add: pow2_def)

lemma rnd64_1_8: "rnd64 (9 / 5) = Finite (8106479329266893 / 4503599627370496)"
  by (rule rnd64_eval [where e = "0" and m = "8106479329266893"]) (simp_all add: pow2_def)

lemma rnd64_1_5: "rnd64 (3 / 2) = Finite (3 / 2)"
  by (rule rnd64_eval [where e = "0" and m = "6755399441055744"]) (simp_all add: pow2_def)

lemma rnd64_below_1_8: "rnd64 (179999999999999999 / 100000000000000000) = Finite (8106479329266893 / 4503599627370496)"
  by (rule rnd64_eval [where e = "0" and m = "8106479329266893"]) (simp_all add: pow2_def)


lemma get_arg_tokens:
  "get_arg ''1.5'' = (Some ''1.5'', [])"
  "get_arg ''1.0'' = (Some ''1.0'', [])"
  "get_arg ''1.8'' = (Some ''1.8'', [])"
  "get_arg ''1.79999999999999999'' = (Some ''1.79999999999999999'', [])"
  by (simp_all add: get_arg_def c_isspace_def)

lemma strtod_tokens:
  "strtod ''1.5'' 0 = (Finite (3 / 2), [], 0)"
  "strtod ''1.0'' 0 = (Finite 1, [], 0)"
  "strtod ''1.8'' 0 = (Finite (8106479329266893 / 4503599627370496), [], 0)"
  "strtod ''1.79999999999999999'' 0 = (Finite (8106479329266893 / 4503599627370496), [], 0)"
  by (simp_all add: strtod_def c_isspace_def c_tolower_def c_isupper_def scan_mantissa_def
        scan_exponent_def digit_val_def strtod_value_def rat_powi_def Let_def
        rnd64_one rnd64_1_8 rnd64_1_5 rnd64_below_1_8 pow2_def ERANGE_def)


lemma config_ratio_finite:
  assumes "get_arg arg_text = (Some tok, rest)"
    and "strtod tok err = (Finite v, [], err1)" and "err1 \<noteq> ERANGE"
  shows "config_ratio clk data arg_text err =
           (if v \<le> 1
              then \<lparr>ret = - 1, dev = clk, cursor = rest, errno = err1,
                    printed = [MustBeGreaterThan1 (Finite v)]\<rparr>
            else if 8106479329266893 / 4503599627370496 \<le> v
              then \<lparr>ret = - 1, dev = clk, cursor = rest, errno = err1,
                    printed = [MustBeLessThan1_8 (Finite v)]\<rparr>
            else \<lparr>ret = 0, dev = update_clock_frequencies (store_ratio data (Finite v) clk),
                  cursor = rest, errno = err1, printed = []\<rparr>)"
  using assms by (simp add: config_ratio_def d_ge_def rnd64_one rnd64_1_8)

lemma clock_config_ratio_keys:
  "clock_config clk ''srsel'' arg_text err = config_ratio clk Srsel arg_text err"
  "clock_config clk ''sdco'' arg_text err = config_ratio clk Sdco arg_text err"
  by (simp_all add: clock_config_def strcaseeq_def c_tolower_def c_isupper_def)










text \<open>
  The examples of the specification: \<open>1.0\<close> and \<open>1.8\<close> are rejected with the value
  echoed, \<open>1.5\<close> is accepted.
\<close>

lemma config_ratio_examples:
  "ret (clock_config (created ''basic'') ''srsel'' ''1.0'' 0) = - 1"
  "printed (clock_config (created ''basic'') ''srsel'' ''1.0'' 0) = [MustBeGreaterThan1 (Finite 1)]"
  "ret (clock_config (created ''basic'') ''srsel'' ''1.8'' 0) = - 1"
  "printed (clock_config (created ''basic'') ''srsel'' ''1.8'' 0) =
     [MustBeLessThan1_8 (Finite (8106479329266893 / 4503599627370496))]"
  "ret (clock_config (created ''basic'') ''srsel'' ''1.5'' 0) = 0"
  by (simp_all add: clock_config_ratio_keys ERANGE_def
        config_ratio_finite [OF get_arg_tokens(2) strtod_tokens(2)]
        config_ratio_finite [OF get_arg_tokens(3) strtod_tokens(3)]
        config_ratio_finite [OF get_arg_tokens(1) strtod_tokens(1)])


text \<open>
  A range error left in \<open>errno\<close> by an earlier call makes a valid token fail:
  \<open>config_ratio\<close> does not clear \<open>errno\<close> before \<open>strtod\<close>.
\<close>

lemma config_ratio_stale_errno:
  "ret (clock_config (created ''basic'') ''srsel'' ''1.5'' ERANGE) = - 1 \<and>
   printed (clock_config (created ''basic'') ''srsel'' ''1.5'' ERANGE) = [IllegalValue]"
  by (simp add: clock_config_ratio_keys config_ratio_def get_arg_tokens
        strtod_def c_isspace_def c_tolower_def c_isupper_def scan_mantissa_def
        scan_exponent_def digit_val_def strtod_value_def rat_powi_def Let_def
        rnd64_1_5 pow2_def ERANGE_def)

end
